theory Spec2Isabelle
  imports Main "HOL-Library.Word"
begin

section \<open>The requantization kernel: data model\<close>

text \<open>
  The development follows
  \<^verbatim>\<open>src/core/NEON/kernels/NEGEMMLowpQuantizeDownInt32ToUint8ScaleByFixedPointKernel.cpp\<close>.
  A C++ \<^verbatim>\<open>int\<close>/\<^verbatim>\<open>int32_t\<close> is a \<open>32 word\<close> read with \<open>sint\<close>; a
  \<^verbatim>\<open>uint8_t\<close> is an \<open>8 word\<close> read with \<open>uint\<close>. Loop indices and window
  bounds are mathematical integers: the row index \<^verbatim>\<open>x\<close> only moves between the
  start and the end of the window's first dimension, and a window that \<open>run\<close> accepts
  lies within the extents of the input.
\<close>

type_synonym s32 = "32 word"
type_synonym u8 = "8 word"

text \<open>
  Modelled from the spec: the element types. The enumeration \<^verbatim>\<open>DataType\<close> lives in
  \<^verbatim>\<open>Types.h\<close>, which is not among the sources; the kernel names \<open>S32\<close>, "32-bit signed
  integer", and \<open>QASYMM8\<close>, "8-bit unsigned".
\<close>

datatype DataType =
  UNKNOWN | U8 | S8 | QASYMM8 | U16 | S16 | U32 | S32 | U64 | S64 | F16 | F32 | F64 | SIZET

text \<open>
  Modelled from the spec: the result of a validation (\<^verbatim>\<open>Status\<close> of \<^verbatim>\<open>Error.h\<close>),
  success or an error. \<^verbatim>\<open>Status{}\<close> is the status with code \<open>OK\<close>; the checking macros
  return a status with code \<open>RUNTIME_ERROR\<close>.
\<close>

datatype ErrorCode = OK | RUNTIME_ERROR

type_synonym Status = ErrorCode

type_synonym Coordinates = "int list"

text \<open>
  Modelled from the spec: the valid region of a tensor, "the subset of a tensor's allocated
  extents that holds meaningful data", as the coordinate it starts at and its shape.
\<close>

record ValidRegion =
  anchor :: Coordinates
  region_shape :: "nat list"

text \<open>
  Modelled from the spec: the tensor descriptor (\<^verbatim>\<open>ITensorInfo\<close>), of which the
  kernel uses the queries "element type, dimension count, per-dimension extent, total
  byte size" and the valid region. \<open>total_size\<close> is the stored byte size: it is 0 for a
  descriptor that has not been initialised.
\<close>

record ITensorInfo =
  data_type :: DataType
  num_channels :: nat
  tensor_shape :: "nat list"
  total_size :: nat
  valid_region :: ValidRegion

definition num_dimensions :: "ITensorInfo \<Rightarrow> nat" where
  "num_dimensions info = length (tensor_shape info)"

text \<open>
  Modelled from the spec: the per-dimension extent. A dimension beyond the shape's own
  has extent 1.
\<close>

definition dimension :: "ITensorInfo \<Rightarrow> nat \<Rightarrow> nat" where
  "dimension info n = (if n < length (tensor_shape info) then tensor_shape info ! n else 1)"

text \<open>Modelled from the spec: the byte size of one element of a type.\<close>

fun element_size :: "DataType \<Rightarrow> nat" where
  "element_size UNKNOWN = 0"
| "element_size U8 = 1"
| "element_size S8 = 1"
| "element_size QASYMM8 = 1"
| "element_size U16 = 2"
| "element_size S16 = 2"
| "element_size F16 = 2"
| "element_size U32 = 4"
| "element_size S32 = 4"
| "element_size F32 = 4"
| "element_size U64 = 8"
| "element_size S64 = 8"
| "element_size F64 = 8"
| "element_size SIZET = 8"

section \<open>The quantization rule\<close>

text \<open>
  Modelled from the spec: \<^verbatim>\<open>finalize_quantization\<close> and the fixed-point helpers it
  calls live in \<^verbatim>\<open>arm_compute/core/NEON/NEAsymm.h\<close>, which is not among the sources.
  The spec (4.1, step 3c) gives the rule: "multiply \<open>v\<close> by \<open>fixed_point_multiplier\<close>
  using a rounding fixed-point multiply-high operation (the product of two 32-bit signed
  values, taking the high 32 bits with round-to-nearest), then arithmetic-shift-right by
  \<open>shift\<close> with rounding-to-nearest at the shifted-out bit, then add
  \<open>offset_after_shift\<close>, then narrow-saturate the result into the unsigned 8-bit range
  \<open>[0,255]\<close>. If the bounded-clamp policy is active, additionally clamp the final value
  into \<open>[min, max]\<close>"; its design notes fix the rounding as "round-half-up on the
  dropped bit".
\<close>

text \<open>
  Modelled from the spec: the rounding multiply-high. The 64-bit product of the two
  signed values, plus half of \<open>2 ^ 32\<close>, shifted right by 32.
\<close>

definition rounding_multiply_high :: "s32 \<Rightarrow> s32 \<Rightarrow> s32" where
  "rounding_multiply_high a b = word_of_int ((sint a * sint b + 2 ^ 31) div 2 ^ 32)"

text \<open>
  Modelled from the spec: the rounding arithmetic shift right. Half of the divisor is
  added before the shift; a shift that drops no bit leaves the value as it is. The spec
  says nothing of a negative shift, which shifts nothing here.
\<close>

definition rounding_shift_right :: "s32 \<Rightarrow> s32 \<Rightarrow> s32" where
  "rounding_shift_right x shift =
     (if sint shift \<le> 0 then x
      else word_of_int ((sint x + 2 ^ (nat (sint shift) - 1)) div 2 ^ nat (sint shift)))"

text \<open>Modelled from the spec: the saturating narrowing of an int32 into \<open>[0,255]\<close>.\<close>

definition saturate_u8 :: "s32 \<Rightarrow> u8" where
  "saturate_u8 x = (if sint x < 0 then 0 else if 255 < sint x then 255 else ucast x)"

text \<open>
  Modelled from the spec: the scalar \<^verbatim>\<open>finalize_quantization<is_bounded_relu>\<close>. The
  call sites in the kernel fix its signature: the value, the multiplier, the shift and
  the offset are int32, the two bounds and the result are uint8.
\<close>

definition finalize_quantization ::
  "bool \<Rightarrow> s32 \<Rightarrow> s32 \<Rightarrow> s32 \<Rightarrow> s32 \<Rightarrow> u8 \<Rightarrow> u8 \<Rightarrow> u8" where
  "finalize_quantization is_bounded_relu in_value result_fixedpoint_multiplier result_shift
       result_offset_after_shift min_u8 max_u8 =
     (let scaled = rounding_multiply_high in_value result_fixedpoint_multiplier;
          shifted = rounding_shift_right scaled result_shift;
          with_offset = shifted + result_offset_after_shift;
          out_u8 = saturate_u8 with_offset
      in if is_bounded_relu then max min_u8 (min max_u8 out_u8) else out_u8)"

section \<open>Windows, iterators and tensor contents\<close>

text \<open>
  Modelled from the spec: the window infrastructure (\<^verbatim>\<open>Window.h\<close>, \<^verbatim>\<open>Helpers.h\<close>),
  "a window object supporting per-dimension \<open>(start, end, step)\<close>". A window lists its
  dimensions from the innermost; a dimension it does not list is the default
  \<open>(0, 1, 1)\<close>, which is visited once at coordinate 0.
\<close>

record Dimension =
  dim_start :: int
  dim_end :: int
  dim_step :: int

type_synonym Window = "Dimension list"

definition DimX :: nat where "DimX = 0"
definition DimY :: nat where "DimY = 1"
definition DimZ :: nat where "DimZ = 2"

definition default_dimension :: Dimension where
  "default_dimension = \<lparr>dim_start = 0, dim_end = 1, dim_step = 1\<rparr>"

definition window_dim :: "Window \<Rightarrow> nat \<Rightarrow> Dimension" where
  "window_dim w n = (if n < length w then w ! n else default_dimension)"

definition window_set :: "Window \<Rightarrow> nat \<Rightarrow> Dimension \<Rightarrow> Window" where
  "window_set w n d = (w @ replicate (Suc n - length w) default_dimension)[n := d]"

text \<open>
  Modelled from the spec: \<^verbatim>\<open>Window::collapse_if_possible\<close>, "collapse the outer
  iteration dimensions where contiguous, to minimize loop overhead". Collapsing changes how
  many loops run and not which elements are visited: in the coordinate view of a tensor
  used here the collapsed window visits the coordinates of the window itself.
\<close>

definition collapse_if_possible :: "Window \<Rightarrow> nat \<Rightarrow> Window" where
  "collapse_if_possible window first = window"

text \<open>
  Modelled from the spec: how often the loop \<^verbatim>\<open>for(v = start; v < end; v += step)\<close>
  of one window dimension runs. \<open>run\<close> rejects a window with a step that is not positive
  before any loop starts.
\<close>

definition dim_iterations :: "Dimension \<Rightarrow> nat" where
  "dim_iterations d =
     (if 0 < dim_step d then nat ((dim_end d - dim_start d + dim_step d - 1) div dim_step d)
      else 0)"

text \<open>
  Modelled from the spec: the iteration of \<^verbatim>\<open>execute_window_loop\<close>, as the list of the
  loop counters of every visit, one counter per dimension, the innermost dimension moving
  fastest ("in ascending lexicographic coordinate order").
\<close>

fun loop_counters :: "Window \<Rightarrow> nat list list" where
  "loop_counters [] = [[]]"
| "loop_counters (d # ds) =
     concat (map (\<lambda>rest. map (\<lambda>k. k # rest) [0..<dim_iterations d]) (loop_counters ds))"

definition counter :: "nat list \<Rightarrow> nat \<Rightarrow> nat" where
  "counter ks n = (if n < length ks then ks ! n else 0)"

text \<open>
  Modelled from the spec: an \<^verbatim>\<open>Iterator\<close> (\<^verbatim>\<open>Helpers.h\<close>), "an addressable
  per-coordinate view yielding raw element pointers for each visited coordinate". It is made
  over a tensor and a window of its own, starts at the start of that window and, each time
  the loop advances dimension \<open>n\<close>, moves by the step of its own window in that dimension;
  only the dimensions the tensor has move it. Its position is the coordinate of the element
  \<^verbatim>\<open>ptr()\<close> points to. An iterator made over the window of the loop is at the
  coordinate the loop visits.
\<close>

record Iterator =
  it_dimensions :: nat
  it_window :: Window

definition iterator_position :: "Iterator \<Rightarrow> nat list \<Rightarrow> Coordinates" where
  "iterator_position it ks =
     map (\<lambda>n. dim_start (window_dim (it_window it) n)
               + int (counter ks n) * dim_step (window_dim (it_window it) n))
       [0..<it_dimensions it]"

text \<open>
  A pointer to a tensor element is the element's coordinate; \<^verbatim>\<open>ptr + x\<close> is the
  element \<open>x\<close> places further along the innermost dimension.
\<close>

fun ptr_add :: "Coordinates \<Rightarrow> int \<Rightarrow> Coordinates" where
  "ptr_add [] x = [x]"
| "ptr_add (p0 # ps) x = (p0 + x) # ps"

text \<open>
  The store: the tensor descriptors by address (\<open>brk\<close> is the first address not in use),
  and the contents of the tensors' buffers, read as int32 or as uint8, by the address of
  the tensor's descriptor and the element's coordinate. A tensor is named by the address of
  its descriptor. The int32 and the uint8 contents are kept apart: the kernel reads int32
  tensors and writes a uint8 tensor, and the statements below are for an output tensor that
  is neither the input nor the bias.
\<close>

record Store =
  infos :: "nat \<Rightarrow> ITensorInfo"
  brk :: nat
  s32_buffer :: "nat \<Rightarrow> Coordinates \<Rightarrow> s32"
  u8_buffer :: "nat \<Rightarrow> Coordinates \<Rightarrow> u8"

text \<open>
  The kernel object. \<open>k_func\<close> is the member-function pointer \<^verbatim>\<open>_func\<close>: \<open>None\<close> is
  \<^verbatim>\<open>nullptr\<close>, \<open>Some b\<close> is \<^verbatim>\<open>run<b>\<close>. \<open>k_window\<close> is the window of
  \<^verbatim>\<open>INEKernel\<close>, \<open>None\<close> until \<^verbatim>\<open>INEKernel::configure\<close> has set it.
\<close>

record Kernel =
  k_func :: "bool option"
  k_input :: "nat option"
  k_bias :: "nat option"
  k_output :: "nat option"
  k_result_fixedpoint_multiplier :: s32
  k_result_shift :: s32
  k_result_offset_after_shift :: s32
  k_min :: s32
  k_max :: s32
  k_window :: "Window option"

text \<open>The constructor.\<close>

definition new_kernel :: Kernel where
  "new_kernel = \<lparr>k_func = None, k_input = None, k_bias = None, k_output = None,
     k_result_fixedpoint_multiplier = 0, k_result_shift = 0, k_result_offset_after_shift = 0,
     k_min = 0, k_max = 0, k_window = None\<rparr>"

section \<open>The NEON operations of the batch path\<close>

text \<open>
  A vector register is the list of its lanes: four int32 lanes, or sixteen uint8 lanes.
\<close>

definition vdupq_n_s32 :: "s32 \<Rightarrow> s32 list" where
  "vdupq_n_s32 v = replicate 4 v"

definition vdupq_n_u8 :: "u8 \<Rightarrow> u8 list" where
  "vdupq_n_u8 v = replicate 16 v"

definition vld1q_s32 :: "(Coordinates \<Rightarrow> s32) \<Rightarrow> Coordinates \<Rightarrow> s32 list" where
  "vld1q_s32 mem p = map (\<lambda>j. mem (ptr_add p (int j))) [0..<4]"

definition vaddq_s32 :: "s32 list \<Rightarrow> s32 list \<Rightarrow> s32 list" where
  "vaddq_s32 a b = map2 (+) a b"

definition vst1q_u8 :: "(Coordinates \<Rightarrow> u8) \<Rightarrow> Coordinates \<Rightarrow> u8 list \<Rightarrow> (Coordinates \<Rightarrow> u8)" where
  "vst1q_u8 mem p v = foldl (\<lambda>m j. m(ptr_add p (int j) := v ! j)) mem [0..<16]"

text \<open>
  Modelled from the spec: the vector \<^verbatim>\<open>finalize_quantization<is_bounded_relu>\<close> of
  \<^verbatim>\<open>NEAsymm.h\<close>, on sixteen int32 values held as four vectors of four. The spec
  applies the quantization rule "per element", and requires that "the batched path must
  always match" the scalar rule "exactly": lane \<open>j\<close> of the result is the scalar rule on
  lane \<open>j\<close> of the input.
\<close>

definition finalize_quantization_x16 ::
  "bool \<Rightarrow> s32 list list \<Rightarrow> s32 \<Rightarrow> s32 \<Rightarrow> s32 list \<Rightarrow> u8 list \<Rightarrow> u8 list \<Rightarrow> u8 list" where
  "finalize_quantization_x16 is_bounded_relu in_s32 result_fixedpoint_multiplier result_shift
       result_offset_after_shift_s32 min_u8 max_u8 =
     map (\<lambda>j. finalize_quantization is_bounded_relu (concat in_s32 ! j)
                 result_fixedpoint_multiplier result_shift
                 (result_offset_after_shift_s32 ! (j mod 4)) (min_u8 ! j) (max_u8 ! j))
       [0..<16]"

section \<open>The row loops of \<^verbatim>\<open>run<is_bounded_relu>\<close>\<close>

text \<open>
  The body of the lambda handed to \<^verbatim>\<open>execute_window_loop\<close>, once for the branch with
  a bias and once for the branch without. \<open>in_ptr\<close>, \<open>bias_ptr\<close> and \<open>out_ptr\<close> are what
  \<^verbatim>\<open>in.ptr()\<close>, \<^verbatim>\<open>bias.ptr()\<close> and \<^verbatim>\<open>out.ptr()\<close> return at the current visit;
  \<open>in_mem\<close>, \<open>bias_mem\<close> and \<open>out_mem\<close> are the buffers they point into. The addition
  of the bias wraps around in both loops: \<^verbatim>\<open>vaddq_s32\<close> does, and so does the scalar
  \<^verbatim>\<open>in_value += bias_value\<close> on the two's complement target.
\<close>

text \<open>One pass of the 16-wide loop of the bias branch: the vector that is stored.\<close>

definition batch_bias ::
  "bool \<Rightarrow> Kernel \<Rightarrow> (Coordinates \<Rightarrow> s32) \<Rightarrow> Coordinates \<Rightarrow> (Coordinates \<Rightarrow> s32) \<Rightarrow> Coordinates
     \<Rightarrow> int \<Rightarrow> u8 list" where
  "batch_bias is_bounded_relu k in_mem in_ptr bias_mem bias_ptr x =
     (let result_offset_after_shift_s32 = vdupq_n_s32 (k_result_offset_after_shift k);
          min_u8 = vdupq_n_u8 (ucast (k_min k));
          max_u8 = vdupq_n_u8 (ucast (k_max k));
          in_s32 = [vld1q_s32 in_mem (ptr_add in_ptr (x + 0)),
                    vld1q_s32 in_mem (ptr_add in_ptr (x + 4)),
                    vld1q_s32 in_mem (ptr_add in_ptr (x + 8)),
                    vld1q_s32 in_mem (ptr_add in_ptr (x + 12))];
          bias_s32 = [vld1q_s32 bias_mem (ptr_add bias_ptr (x + 0)),
                      vld1q_s32 bias_mem (ptr_add bias_ptr (x + 4)),
                      vld1q_s32 bias_mem (ptr_add bias_ptr (x + 8)),
                      vld1q_s32 bias_mem (ptr_add bias_ptr (x + 12))];
          in_s32 = [vaddq_s32 (in_s32 ! 0) (bias_s32 ! 0),
                    vaddq_s32 (in_s32 ! 1) (bias_s32 ! 1),
                    vaddq_s32 (in_s32 ! 2) (bias_s32 ! 2),
                    vaddq_s32 (in_s32 ! 3) (bias_s32 ! 3)]
      in finalize_quantization_x16 is_bounded_relu in_s32 (k_result_fixedpoint_multiplier k)
           (k_result_shift k) result_offset_after_shift_s32 min_u8 max_u8)"

text \<open>
  The 16-wide loop \<^verbatim>\<open>for(; x <= (window_end_x - window_step_x); x += window_step_x)\<close>
  of the bias branch. It returns the index it stopped at and the output buffer.
\<close>

function batch_loop_bias ::
  "bool \<Rightarrow> Kernel \<Rightarrow> (Coordinates \<Rightarrow> s32) \<Rightarrow> Coordinates \<Rightarrow> (Coordinates \<Rightarrow> s32) \<Rightarrow> Coordinates
     \<Rightarrow> Coordinates \<Rightarrow> int \<Rightarrow> int \<Rightarrow> (Coordinates \<Rightarrow> u8) \<Rightarrow> int \<times> (Coordinates \<Rightarrow> u8)" where
  "batch_loop_bias is_bounded_relu k in_mem in_ptr bias_mem bias_ptr out_ptr window_end_x x out_mem =
     (if x \<le> window_end_x - 16
      then batch_loop_bias is_bounded_relu k in_mem in_ptr bias_mem bias_ptr out_ptr window_end_x
             (x + 16)
             (vst1q_u8 out_mem (ptr_add out_ptr x)
                (batch_bias is_bounded_relu k in_mem in_ptr bias_mem bias_ptr x))
      else (x, out_mem))"
  by pat_completeness auto
termination
  by (relation "measure (\<lambda>(b, k, im, ip, bm, bp, op, e, x, om). nat (e - x))") auto

text \<open>The left-over loop \<^verbatim>\<open>for(; x < window_end_x; ++x)\<close> of the bias branch.\<close>

function leftover_loop_bias ::
  "bool \<Rightarrow> Kernel \<Rightarrow> (Coordinates \<Rightarrow> s32) \<Rightarrow> Coordinates \<Rightarrow> (Coordinates \<Rightarrow> s32) \<Rightarrow> Coordinates
     \<Rightarrow> Coordinates \<Rightarrow> int \<Rightarrow> int \<Rightarrow> (Coordinates \<Rightarrow> u8) \<Rightarrow> (Coordinates \<Rightarrow> u8)" where
  "leftover_loop_bias is_bounded_relu k in_mem in_ptr bias_mem bias_ptr out_ptr window_end_x x out_mem =
     (if x < window_end_x
      then let bias_value = bias_mem (ptr_add bias_ptr x);
               in_value = in_mem (ptr_add in_ptr x);
               in_value = in_value + bias_value
           in leftover_loop_bias is_bounded_relu k in_mem in_ptr bias_mem bias_ptr out_ptr
                window_end_x (x + 1)
                (out_mem(ptr_add out_ptr x :=
                   finalize_quantization is_bounded_relu in_value
                     (k_result_fixedpoint_multiplier k) (k_result_shift k)
                     (k_result_offset_after_shift k) (ucast (k_min k)) (ucast (k_max k))))
      else out_mem)"
  by pat_completeness auto
termination
  by (relation "measure (\<lambda>(b, k, im, ip, bm, bp, op, e, x, om). nat (e - x))") auto

definition row_bias ::
  "bool \<Rightarrow> Kernel \<Rightarrow> (Coordinates \<Rightarrow> s32) \<Rightarrow> Coordinates \<Rightarrow> (Coordinates \<Rightarrow> s32) \<Rightarrow> Coordinates
     \<Rightarrow> Coordinates \<Rightarrow> int \<Rightarrow> int \<Rightarrow> (Coordinates \<Rightarrow> u8) \<Rightarrow> (Coordinates \<Rightarrow> u8)" where
  "row_bias is_bounded_relu k in_mem in_ptr bias_mem bias_ptr out_ptr window_start_x window_end_x
       out_mem =
     (case batch_loop_bias is_bounded_relu k in_mem in_ptr bias_mem bias_ptr out_ptr window_end_x
             window_start_x out_mem of
        (x, out_mem') \<Rightarrow>
          leftover_loop_bias is_bounded_relu k in_mem in_ptr bias_mem bias_ptr out_ptr
            window_end_x x out_mem')"

text \<open>The same three for the branch without a bias.\<close>

definition batch_nobias ::
  "bool \<Rightarrow> Kernel \<Rightarrow> (Coordinates \<Rightarrow> s32) \<Rightarrow> Coordinates \<Rightarrow> int \<Rightarrow> u8 list" where
  "batch_nobias is_bounded_relu k in_mem in_ptr x =
     (let result_offset_after_shift_s32 = vdupq_n_s32 (k_result_offset_after_shift k);
          min_u8 = vdupq_n_u8 (ucast (k_min k));
          max_u8 = vdupq_n_u8 (ucast (k_max k));
          in_s32 = [vld1q_s32 in_mem (ptr_add in_ptr (x + 0)),
                    vld1q_s32 in_mem (ptr_add in_ptr (x + 4)),
                    vld1q_s32 in_mem (ptr_add in_ptr (x + 8)),
                    vld1q_s32 in_mem (ptr_add in_ptr (x + 12))]
      in finalize_quantization_x16 is_bounded_relu in_s32 (k_result_fixedpoint_multiplier k)
           (k_result_shift k) result_offset_after_shift_s32 min_u8 max_u8)"

function batch_loop_nobias ::
  "bool \<Rightarrow> Kernel \<Rightarrow> (Coordinates \<Rightarrow> s32) \<Rightarrow> Coordinates \<Rightarrow> Coordinates \<Rightarrow> int \<Rightarrow> int
     \<Rightarrow> (Coordinates \<Rightarrow> u8) \<Rightarrow> int \<times> (Coordinates \<Rightarrow> u8)" where
  "batch_loop_nobias is_bounded_relu k in_mem in_ptr out_ptr window_end_x x out_mem =
     (if x \<le> window_end_x - 16
      then batch_loop_nobias is_bounded_relu k in_mem in_ptr out_ptr window_end_x (x + 16)
             (vst1q_u8 out_mem (ptr_add out_ptr x) (batch_nobias is_bounded_relu k in_mem in_ptr x))
      else (x, out_mem))"
  by pat_completeness auto
termination
  by (relation "measure (\<lambda>(b, k, im, ip, op, e, x, om). nat (e - x))") auto

function leftover_loop_nobias ::
  "bool \<Rightarrow> Kernel \<Rightarrow> (Coordinates \<Rightarrow> s32) \<Rightarrow> Coordinates \<Rightarrow> Coordinates \<Rightarrow> int \<Rightarrow> int
     \<Rightarrow> (Coordinates \<Rightarrow> u8) \<Rightarrow> (Coordinates \<Rightarrow> u8)" where
  "leftover_loop_nobias is_bounded_relu k in_mem in_ptr out_ptr window_end_x x out_mem =
     (if x < window_end_x
      then let in_value = in_mem (ptr_add in_ptr x)
           in leftover_loop_nobias is_bounded_relu k in_mem in_ptr out_ptr window_end_x (x + 1)
                (out_mem(ptr_add out_ptr x :=
                   finalize_quantization is_bounded_relu in_value
                     (k_result_fixedpoint_multiplier k) (k_result_shift k)
                     (k_result_offset_after_shift k) (ucast (k_min k)) (ucast (k_max k))))
      else out_mem)"
  by pat_completeness auto
termination
  by (relation "measure (\<lambda>(b, k, im, ip, op, e, x, om). nat (e - x))") auto

definition row_nobias ::
  "bool \<Rightarrow> Kernel \<Rightarrow> (Coordinates \<Rightarrow> s32) \<Rightarrow> Coordinates \<Rightarrow> Coordinates \<Rightarrow> int \<Rightarrow> int
     \<Rightarrow> (Coordinates \<Rightarrow> u8) \<Rightarrow> (Coordinates \<Rightarrow> u8)" where
  "row_nobias is_bounded_relu k in_mem in_ptr out_ptr window_start_x window_end_x out_mem =
     (case batch_loop_nobias is_bounded_relu k in_mem in_ptr out_ptr window_end_x window_start_x
             out_mem of
        (x, out_mem') \<Rightarrow>
          leftover_loop_nobias is_bounded_relu k in_mem in_ptr out_ptr window_end_x x out_mem')"

section \<open>\<^verbatim>\<open>run\<close>\<close>

text \<open>
  The fatal conditions: a null pointer that is asserted against or dereferenced, the two
  assertions of \<open>run\<close>, and the status thrown by \<^verbatim>\<open>ARM_COMPUTE_ERROR_THROW_ON\<close>.
\<close>

datatype fatal = Null_pointer | Unconfigured_kernel | Invalid_subwindow | Thrown Status

text \<open>
  Modelled from the spec: the information on the calling thread that the scheduler hands to
  \<open>run\<close> (\<^verbatim>\<open>ThreadInfo\<close> of \<^verbatim>\<open>CPPTypes.h\<close>).
\<close>

record ThreadInfo =
  thread_id :: int
  num_threads :: int
  cpu_info :: "nat option"

text \<open>
  Modelled from the spec: the constructor \<^verbatim>\<open>Iterator(tensor, win)\<close>. The iterator has
  the dimensions of the tensor.
\<close>

definition make_iterator :: "Store \<Rightarrow> nat \<Rightarrow> Window \<Rightarrow> Iterator" where
  "make_iterator s tensor win =
     \<lparr>it_dimensions = num_dimensions (infos s tensor), it_window = win\<rparr>"

text \<open>
  Modelled from the spec: \<^verbatim>\<open>execute_window_loop\<close> calls the lambda once per visit of
  the window. The lambda of the model takes the loop counters of the visit, from which the
  positions of the iterators follow, and the output buffer.
\<close>

definition execute_window_loop :: "Window \<Rightarrow> (nat list \<Rightarrow> 'm \<Rightarrow> 'm) \<Rightarrow> 'm \<Rightarrow> 'm" where
  "execute_window_loop w lambda_function mem = fold lambda_function (loop_counters w) mem"

text \<open>
  \<^verbatim>\<open>run<is_bounded_relu>(window)\<close>. The members \<^verbatim>\<open>_input\<close> and \<^verbatim>\<open>_output\<close> are
  dereferenced; \<^verbatim>\<open>_bias\<close> is tested against \<^verbatim>\<open>nullptr\<close>.
\<close>

definition run_template :: "bool \<Rightarrow> Kernel \<Rightarrow> Window \<Rightarrow> Store \<Rightarrow> fatal + Store" where
  "run_template is_bounded_relu k window s =
     (case (k_input k, k_output k) of
        (Some input, Some output) \<Rightarrow>
          (let window_start_x = dim_start (window_dim window DimX);
               window_end_x = dim_end (window_dim window DimX);
               win_collapsed = window_set (collapse_if_possible window DimZ) DimX
                 \<lparr>dim_start = 0, dim_end = 1, dim_step = 1\<rparr>;
               in_it = make_iterator s input win_collapsed;
               out_it = make_iterator s output win_collapsed
           in case k_bias k of
                Some bias \<Rightarrow>
                  (let win_biases = window_set (window_set [] DimX
                         \<lparr>dim_start = 0, dim_end = 1, dim_step = 1\<rparr>) DimY
                         \<lparr>dim_start = 0, dim_end = 1, dim_step = 1\<rparr>;
                       bias_it = make_iterator s bias win_biases
                   in Inr (s\<lparr>u8_buffer := (u8_buffer s)(output :=
                        execute_window_loop win_collapsed
                          (\<lambda>ks. row_bias is_bounded_relu k
                             (s32_buffer s input) (iterator_position in_it ks)
                             (s32_buffer s bias) (iterator_position bias_it ks)
                             (iterator_position out_it ks) window_start_x window_end_x)
                          (u8_buffer s output))\<rparr>))
              | None \<Rightarrow>
                  Inr (s\<lparr>u8_buffer := (u8_buffer s)(output :=
                    execute_window_loop win_collapsed
                      (\<lambda>ks. row_nobias is_bounded_relu k
                         (s32_buffer s input) (iterator_position in_it ks)
                         (iterator_position out_it ks) window_start_x window_end_x)
                      (u8_buffer s output))\<rparr>))
      | _ \<Rightarrow> Inl Null_pointer)"

text \<open>
  Modelled from the spec: \<^verbatim>\<open>ARM_COMPUTE_ERROR_ON_INVALID_SUBWINDOW\<close>, "reject if
  \<open>window\<close> is not a valid sub-window of the configured window": in every dimension the
  range of the sub-window lies in the range of the full window, with a positive step.
\<close>

definition is_valid_subwindow :: "Window \<Rightarrow> Window \<Rightarrow> bool" where
  "is_valid_subwindow full sub =
     list_all (\<lambda>n. dim_start (window_dim full n) \<le> dim_start (window_dim sub n)
                  \<and> dim_end (window_dim sub n) \<le> dim_end (window_dim full n)
                  \<and> 0 < dim_step (window_dim sub n))
       [0..<max (length full) (length sub)]"

text \<open>
  \<^verbatim>\<open>run(window, info)\<close>: \<^verbatim>\<open>ARM_COMPUTE_UNUSED(info)\<close>, the two assertions, then
  the call through \<^verbatim>\<open>_func\<close>. Modelled from the spec:
  \<^verbatim>\<open>ARM_COMPUTE_ERROR_ON_UNCONFIGURED_KERNEL\<close>, "reject if not configured", fails for a
  kernel whose window has not been set.
\<close>

definition run :: "Kernel \<Rightarrow> Window \<Rightarrow> ThreadInfo \<Rightarrow> Store \<Rightarrow> fatal + Store" where
  "run k window info s =
     (case k_window k of
        None \<Rightarrow> Inl Unconfigured_kernel
      | Some full \<Rightarrow>
          if \<not> is_valid_subwindow full window then Inl Invalid_subwindow
          else (case k_func k of
                  None \<Rightarrow> Inl Null_pointer
                | Some is_bounded_relu \<Rightarrow> run_template is_bounded_relu k window s))"

section \<open>\<^verbatim>\<open>validate\<close> and \<^verbatim>\<open>configure\<close>\<close>

text \<open>
  Modelled from the spec: the checking macros of \<^verbatim>\<open>Validate.h\<close>.
  \<^verbatim>\<open>ARM_COMPUTE_RETURN_ERROR_ON_DATA_TYPE_CHANNEL_NOT_IN(t, c, dt)\<close> fails unless the
  element type of \<open>t\<close> is \<open>dt\<close> with \<open>c\<close> channels ("32-bit signed integer, single
  channel"); the two \<^verbatim>\<open>MISMATCHING\<close> macros fail when the element types, or the shapes,
  of their two arguments differ.
\<close>

definition error_on_data_type_channel_not_in :: "ITensorInfo \<Rightarrow> nat \<Rightarrow> DataType \<Rightarrow> Status" where
  "error_on_data_type_channel_not_in tensor_info num_channels' dt =
     (if data_type tensor_info \<noteq> dt then RUNTIME_ERROR
      else if num_channels tensor_info \<noteq> num_channels' then RUNTIME_ERROR
      else OK)"

definition error_on_mismatching_data_types :: "ITensorInfo \<Rightarrow> ITensorInfo \<Rightarrow> Status" where
  "error_on_mismatching_data_types tensor_info_1 tensor_info_2 =
     (if data_type tensor_info_1 \<noteq> data_type tensor_info_2 then RUNTIME_ERROR else OK)"

definition error_on_mismatching_shapes :: "ITensorInfo \<Rightarrow> ITensorInfo \<Rightarrow> Status" where
  "error_on_mismatching_shapes tensor_info_1 tensor_info_2 =
     (if tensor_shape tensor_info_1 \<noteq> tensor_shape tensor_info_2 then RUNTIME_ERROR else OK)"

text \<open>
  \<^verbatim>\<open>validate_arguments\<close>: the checks in the order of the source, each returning at
  its first failure. \<open>bias\<close> is \<open>None\<close> for \<^verbatim>\<open>nullptr\<close>.
\<close>

definition validate_arguments :: "Store \<Rightarrow> nat \<Rightarrow> nat option \<Rightarrow> nat \<Rightarrow> s32 \<Rightarrow> s32 \<Rightarrow> Status" where
  "validate_arguments s input bias output min_arg max_arg =
     (if error_on_data_type_channel_not_in (infos s input) 1 S32 \<noteq> OK then RUNTIME_ERROR
      else if 255 < sint max_arg then RUNTIME_ERROR
      else if sint min_arg < 0 \<or> sint max_arg < sint min_arg then RUNTIME_ERROR
      else case (case bias of
              None \<Rightarrow> OK
            | Some b \<Rightarrow>
                if error_on_mismatching_data_types (infos s input) (infos s b) \<noteq> OK
                then RUNTIME_ERROR
                else if 1 < num_dimensions (infos s b) then RUNTIME_ERROR
                else if dimension (infos s input) 0 \<noteq> dimension (infos s b) 0 then RUNTIME_ERROR
                else OK) of
          RUNTIME_ERROR \<Rightarrow> RUNTIME_ERROR
        | OK \<Rightarrow>
            if total_size (infos s output) \<noteq> 0
            then if error_on_data_type_channel_not_in (infos s output) 1 QASYMM8 \<noteq> OK
                 then RUNTIME_ERROR
                 else if error_on_mismatching_shapes (infos s output) (infos s input) \<noteq> OK
                 then RUNTIME_ERROR
                 else OK
            else OK)"

text \<open>
  Modelled from the spec: the descriptor operations \<^verbatim>\<open>clone()\<close>,
  \<^verbatim>\<open>set_data_type\<close> and \<^verbatim>\<open>set_valid_region\<close> of \<^verbatim>\<open>ITensorInfo\<close>.
  \<^verbatim>\<open>clone()\<close> makes a copy of a descriptor at an address not in use so far; the two
  setters change one field of the descriptor they are called on.
\<close>

definition clone :: "Store \<Rightarrow> nat \<Rightarrow> nat \<times> Store" where
  "clone s p = (brk s, s\<lparr>infos := (infos s)(brk s := infos s p), brk := Suc (brk s)\<rparr>)"

definition set_data_type :: "Store \<Rightarrow> nat \<Rightarrow> DataType \<Rightarrow> Store" where
  "set_data_type s p dt = s\<lparr>infos := (infos s)(p := (infos s p)\<lparr>data_type := dt\<rparr>)\<rparr>"

text \<open>
  Modelled from the spec: \<^verbatim>\<open>auto_init_if_empty(info, info_source)\<close>, "if the output's
  descriptor is empty, initializes it to" the shape and element type of the source, "no
  padding requirements": the byte size becomes that of the elements alone.
\<close>

definition auto_init_if_empty :: "Store \<Rightarrow> nat \<Rightarrow> nat \<Rightarrow> Store" where
  "auto_init_if_empty s info_ptr info_source =
     (if total_size (infos s info_ptr) = 0
      then s\<lparr>infos := (infos s)(info_ptr := (infos s info_ptr)
             \<lparr>data_type := data_type (infos s info_source),
              num_channels := num_channels (infos s info_source),
              tensor_shape := tensor_shape (infos s info_source),
              total_size := element_size (data_type (infos s info_source))
                * num_channels (infos s info_source)
                * prod_list (tensor_shape (infos s info_source))\<rparr>)\<rparr>
      else s)"

text \<open>
  Modelled from the spec: \<^verbatim>\<open>calculate_max_window(info, Steps())\<close>, "the maximal window
  covering the input's full shape with unit step per dimension".
\<close>

definition calculate_max_window :: "ITensorInfo \<Rightarrow> Window" where
  "calculate_max_window tensor_info =
     map (\<lambda>extent. \<lparr>dim_start = 0, dim_end = int extent, dim_step = 1\<rparr>)
       (tensor_shape tensor_info)"

definition set_valid_region :: "Store \<Rightarrow> nat \<Rightarrow> ValidRegion \<Rightarrow> Store" where
  "set_valid_region s p region = s\<lparr>infos := (infos s)(p := (infos s p)\<lparr>valid_region := region\<rparr>)\<rparr>"

text \<open>
  \<^verbatim>\<open>validate_and_configure_window(input, output)\<close>. The temporary made by
  \<^verbatim>\<open>input->clone()\<close> gets its element type set and is the source of the
  initialisation of \<open>output\<close>.
\<close>

definition validate_and_configure_window :: "Store \<Rightarrow> nat \<Rightarrow> nat \<Rightarrow> (Status \<times> Window) \<times> Store" where
  "validate_and_configure_window s input output =
     (case clone s input of
        (tmp, s1) \<Rightarrow>
          (let s2 = auto_init_if_empty (set_data_type s1 tmp QASYMM8) output tmp;
               win = calculate_max_window (infos s2 input);
               coord = replicate (num_dimensions (infos s2 output)) (0::int);
               s3 = set_valid_region s2 output
                      \<lparr>anchor = coord, region_shape = tensor_shape (infos s2 output)\<rparr>
           in ((OK, win), s3)))"

text \<open>
  \<^verbatim>\<open>validate\<close>: \<^verbatim>\<open>ARM_COMPUTE_ERROR_ON_NULLPTR(input, output)\<close>, then the two
  \<^verbatim>\<open>ARM_COMPUTE_RETURN_ON_ERROR\<close> steps, the second on clones of the two descriptors.
\<close>

definition validate ::
  "Store \<Rightarrow> nat option \<Rightarrow> nat option \<Rightarrow> nat option \<Rightarrow> s32 \<Rightarrow> s32 \<Rightarrow> fatal + (Status \<times> Store)" where
  "validate s input bias output min_arg max_arg =
     (case (input, output) of
        (Some i, Some out) \<Rightarrow>
          (case validate_arguments s i bias out min_arg max_arg of
             RUNTIME_ERROR \<Rightarrow> Inr (RUNTIME_ERROR, s)
           | OK \<Rightarrow>
               (case clone s i of
                  (input_clone, s1) \<Rightarrow>
                    (case clone s1 out of
                       (output_clone, s2) \<Rightarrow>
                         (case validate_and_configure_window s2 input_clone output_clone of
                            ((RUNTIME_ERROR, win), s3) \<Rightarrow> Inr (RUNTIME_ERROR, s3)
                          | ((OK, win), s3) \<Rightarrow> Inr (OK, s3)))))
      | _ \<Rightarrow> Inl Null_pointer)"

text \<open>
  \<^verbatim>\<open>configure\<close>. A tensor is named by the address of its descriptor, so that
  \<^verbatim>\<open>input->info()\<close> is \<open>input\<close> itself.
\<close>

definition configure ::
  "Store \<Rightarrow> Kernel \<Rightarrow> nat option \<Rightarrow> nat option \<Rightarrow> nat option \<Rightarrow> s32 \<Rightarrow> s32 \<Rightarrow> s32 \<Rightarrow> s32 \<Rightarrow> s32
     \<Rightarrow> fatal + (Store \<times> Kernel)" where
  "configure s k input bias output result_fixedpoint_multiplier result_shift
       result_offset_after_shift min_arg max_arg =
     (case (input, output) of
        (Some i, Some out) \<Rightarrow>
          (case validate_arguments s i bias out min_arg max_arg of
             RUNTIME_ERROR \<Rightarrow> Inl (Thrown RUNTIME_ERROR)
           | OK \<Rightarrow>
               (let k1 = k\<lparr>k_input := Some i, k_bias := bias, k_output := Some out,
                          k_result_fixedpoint_multiplier := result_fixedpoint_multiplier,
                          k_result_shift := result_shift,
                          k_result_offset_after_shift := result_offset_after_shift,
                          k_min := min_arg, k_max := max_arg\<rparr>
                in case validate_and_configure_window s i out of
                     ((RUNTIME_ERROR, win), s1) \<Rightarrow> Inl (Thrown RUNTIME_ERROR)
                   | ((OK, win), s1) \<Rightarrow>
                       (let k2 = k1\<lparr>k_window := Some win\<rparr>;
                            is_bounded_relu =
                              (min_arg \<noteq> max_arg \<and> \<not> (min_arg = 0 \<and> max_arg = 255))
                        in Inr (s1, k2\<lparr>k_func := Some is_bounded_relu\<rparr>))))
      | _ \<Rightarrow> Inl Null_pointer)"

section \<open>Notions used in the statements\<close>

text \<open>
  The call of the scalar \<^verbatim>\<open>finalize_quantization<is_bounded_relu>\<close> as the left-over
  loops make it: with the parameters of the kernel, the two bounds cast to
  \<^verbatim>\<open>uint8_t\<close>.
\<close>

definition quantize :: "bool \<Rightarrow> Kernel \<Rightarrow> s32 \<Rightarrow> u8" where
  "quantize is_bounded_relu k in_value =
     finalize_quantization is_bounded_relu in_value (k_result_fixedpoint_multiplier k)
       (k_result_shift k) (k_result_offset_after_shift k) (ucast (k_min k)) (ucast (k_max k))"

text \<open>
  The distance \<^verbatim>\<open>c - p\<close> of two pointers of one row, and the elements
  \<^verbatim>\<open>p + x\<close> with \<open>sx \<le> x < ex\<close>.
\<close>

fun ptr_diff :: "Coordinates \<Rightarrow> Coordinates \<Rightarrow> int" where
  "ptr_diff [] p = 0"
| "ptr_diff (c0 # cs) [] = c0"
| "ptr_diff (c0 # cs) (p0 # ps) = c0 - p0"

definition written :: "Coordinates \<Rightarrow> int \<Rightarrow> int \<Rightarrow> Coordinates \<Rightarrow> bool" where
  "written p sx ex c = (sx \<le> ptr_diff c p \<and> ptr_diff c p < ex \<and> c = ptr_add p (ptr_diff c p))"

text \<open>
  A buffer after the elements \<^verbatim>\<open>p + x\<close>, \<open>sx \<le> x < ex\<close>, have been set to \<open>F x\<close>.
\<close>

definition row_result ::
  "(int \<Rightarrow> u8) \<Rightarrow> Coordinates \<Rightarrow> int \<Rightarrow> int \<Rightarrow> (Coordinates \<Rightarrow> u8) \<Rightarrow> (Coordinates \<Rightarrow> u8)" where
  "row_result F p sx ex mem = (\<lambda>c. if written p sx ex c then F (ptr_diff c p) else mem c)"

text \<open>
  The window \<^verbatim>\<open>win_collapsed\<close> of \<^verbatim>\<open>run<is_bounded_relu>\<close>, and the rows it
  visits in a tensor: the positions of an iterator over the tensor, one per visit. A row is
  the coordinate \<open>(0, y, z, \<dots>)\<close>, and \<open>ptr_add row x\<close> is the element \<open>(x, y, z, \<dots>)\<close>.
\<close>

definition win_collapsed :: "Window \<Rightarrow> Window" where
  "win_collapsed window = window_set (collapse_if_possible window DimZ) DimX
     \<lparr>dim_start = 0, dim_end = 1, dim_step = 1\<rparr>"

definition visited_rows :: "Store \<Rightarrow> nat \<Rightarrow> Window \<Rightarrow> Coordinates list" where
  "visited_rows s tensor window =
     map (iterator_position (make_iterator s tensor (win_collapsed window)))
       (loop_counters (win_collapsed window))"

text \<open>
  The reference for the batch path, in the words of the spec: "processing every element
  one at a time with the scalar quantization rule", from the start of the row to its end.
  \<open>element x\<close> is the value at index \<open>x\<close>, after the bias has been added where there is
  one.
\<close>

definition one_at_a_time ::
  "bool \<Rightarrow> Kernel \<Rightarrow> (int \<Rightarrow> s32) \<Rightarrow> Coordinates \<Rightarrow> int \<Rightarrow> int \<Rightarrow> (Coordinates \<Rightarrow> u8)
     \<Rightarrow> (Coordinates \<Rightarrow> u8)" where
  "one_at_a_time is_bounded_relu k element out_ptr window_start_x window_end_x out_mem =
     fold (\<lambda>x mem. mem(ptr_add out_ptr x := quantize is_bounded_relu k (element x)))
       [window_start_x..window_end_x - 1] out_mem"

text \<open>
  A concrete store for the examples: a \<open>3 \<times> 2\<close> int32 input at address 0, a bias of three
  int32 values at address 1, and an output descriptor that is still empty at address 2.
\<close>

definition empty_info :: ITensorInfo where
  "empty_info = \<lparr>data_type = UNKNOWN, num_channels = 0, tensor_shape = [], total_size = 0,
     valid_region = \<lparr>anchor = [], region_shape = []\<rparr>\<rparr>"

definition example_store :: Store where
  "example_store =
     \<lparr>infos = (\<lambda>a. if a = 0
                   then \<lparr>data_type = S32, num_channels = 1, tensor_shape = [3, 2], total_size = 24,
                         valid_region = \<lparr>anchor = [0, 0], region_shape = [3, 2]\<rparr>\<rparr>
                   else if a = 1
                   then \<lparr>data_type = S32, num_channels = 1, tensor_shape = [3], total_size = 12,
                         valid_region = \<lparr>anchor = [0], region_shape = [3]\<rparr>\<rparr>
                   else empty_info),
      brk = 3,
      s32_buffer = (\<lambda>t c. if t = 0 then (if c = [2, 1] then 1000 else 0) else (if c = [2] then 24 else 0)),
      u8_buffer = (\<lambda>t c. 0)\<rparr>"

definition example_window :: Window where
  "example_window = [\<lparr>dim_start = 0, dim_end = 3, dim_step = 1\<rparr>,
                     \<lparr>dim_start = 0, dim_end = 2, dim_step = 1\<rparr>]"

definition example_info :: ThreadInfo where
  "example_info = \<lparr>thread_id = 0, num_threads = 1, cpu_info = None\<rparr>"

text \<open>
  A kernel configured on that store with \<open>min = max = 5\<close>, multiplier 0, shift 0 and
  offset 128, and its run over the whole window.
\<close>

definition degenerate_configured :: "fatal + (Store \<times> Kernel)" where
  "degenerate_configured = configure example_store new_kernel (Some 0) None (Some 2) 0 0 128 5 5"

definition degenerate_run :: "fatal + Store" where
  "degenerate_run = run (snd (projr degenerate_configured)) example_window example_info
     (fst (projr degenerate_configured))"

declare batch_loop_nobias.simps [simp del] leftover_loop_nobias.simps [simp del]
  batch_loop_bias.simps [simp del] leftover_loop_bias.simps [simp del]

section \<open>The range of the quantization rule\<close>

lemma u8_uint_bounds: "0 \<le> uint (r::u8) \<and> uint r \<le> 255"
  using uint_lt2p[of r] by simp

lemma ucast_in_range:
  assumes "0 \<le> sint (m::s32)" "sint m \<le> 255"
  shows "uint (ucast m :: u8) = sint m"
proof -
  have "uint m = take_bit 32 (sint m)" by (simp add: uint_sint)
  also have "\<dots> = sint m" using assms by (simp add: take_bit_int_eq_self)
  finally have e: "uint m = sint m" .
  have "uint (ucast m :: u8) = take_bit 8 (uint m)"
    by (simp add: unsigned_ucast_eq)
  also have "\<dots> = sint m" using assms e by (simp add: take_bit_int_eq_self)
  finally show ?thesis .
qed

lemma uint_max_u8: "uint (max (a::u8) b) = max (uint a) (uint b)"
  by (simp add: max_def word_le_def)

lemma uint_min_u8: "uint (min (a::u8) b) = min (uint a) (uint b)"
  by (simp add: min_def word_le_def)

text \<open>
  Claim C2. For all parameters with \<open>0 \<le> min \<le> max \<le> 255\<close> and every int32 input \<open>v\<close>,
  the result of the quantization of one element lies in \<open>[min, max]\<close> when the
  bounded-clamp policy is active, and in \<open>[0, 255]\<close> otherwise. The rule is the one the
  spec gives for \<^verbatim>\<open>finalize_quantization\<close>, called as the kernel calls it.
\<close>

theorem quantize_in_range:
  assumes "0 \<le> sint (k_min k)" and "sint (k_min k) \<le> sint (k_max k)" and "sint (k_max k) \<le> 255"
  shows "if is_bounded_relu
         then sint (k_min k) \<le> uint (quantize is_bounded_relu k v)
            \<and> uint (quantize is_bounded_relu k v) \<le> sint (k_max k)
         else 0 \<le> uint (quantize is_bounded_relu k v)
            \<and> uint (quantize is_bounded_relu k v) \<le> 255"
  using assms ucast_in_range[of "k_min k"] ucast_in_range[of "k_max k"] u8_uint_bounds
  by (auto simp: quantize_def finalize_quantization_def Let_def uint_max_u8 uint_min_u8)

theorem quantize_in_range_witness:
  "sint (10 :: s32) \<le> uint (quantize True (new_kernel\<lparr>k_result_fixedpoint_multiplier := 2 ^ 30,
       k_result_shift := 2, k_result_offset_after_shift := 128, k_min := 10, k_max := 200\<rparr>) 100000)
   \<and> uint (quantize True (new_kernel\<lparr>k_result_fixedpoint_multiplier := 2 ^ 30,
       k_result_shift := 2, k_result_offset_after_shift := 128, k_min := 10, k_max := 200\<rparr>) 100000)
      \<le> sint (200 :: s32)"
  using quantize_in_range[of "new_kernel\<lparr>k_result_fixedpoint_multiplier := 2 ^ 30,
       k_result_shift := 2, k_result_offset_after_shift := 128, k_min := 10, k_max := 200\<rparr>"
       True 100000]
  by (simp add: new_kernel_def)

section \<open>Independence of the thread information\<close>

text \<open>
  Claim C10. The outcome of \<^verbatim>\<open>run(window, info)\<close>, the output written or the
  assertion that fails, does not depend on the \<^verbatim>\<open>ThreadInfo\<close> argument: two calls with
  the same kernel, window and tensor contents give the same result.
\<close>

theorem run_independent_of_thread_info:
  "run k window info1 s = run k window info2 s"
  by (simp add: run_def)

section \<open>The row loops in closed form\<close>

lemma ptr_diff_add [simp]: "ptr_diff (ptr_add p x) p = x"
  by (cases p) simp_all

lemma ptr_add_add [simp]: "ptr_add (ptr_add p x) y = ptr_add p (x + y)"
  by (cases p) simp_all

lemma ptr_add_inj [simp]: "ptr_add p x = ptr_add p y \<longleftrightarrow> x = y"
  by (cases p) simp_all

lemma written_add [simp]: "written p sx ex (ptr_add p x) \<longleftrightarrow> sx \<le> x \<and> x < ex"
  by (simp add: written_def)

lemma written_other: "\<forall>x. c \<noteq> ptr_add p x \<Longrightarrow> \<not> written p sx ex c"
  by (auto simp: written_def)

lemma row_result_at:
  "row_result F p sx ex mem (ptr_add p x) = (if sx \<le> x \<and> x < ex then F x else mem (ptr_add p x))"
  by (simp add: row_result_def)

lemma row_result_other: "\<forall>x. c \<noteq> ptr_add p x \<Longrightarrow> row_result F p sx ex mem c = mem c"
  by (simp add: row_result_def written_other)

lemma mem_eqI:
  assumes "\<And>x. f (ptr_add p x) = g (ptr_add p x)"
    and "\<And>c. \<forall>x. c \<noteq> ptr_add p x \<Longrightarrow> f c = g c"
  shows "f = g"
proof
  fix c show "f c = g c"
    by (cases "\<exists>x. c = ptr_add p x") (auto simp: assms)
qed

lemma row_result_empty: "ex \<le> sx \<Longrightarrow> row_result F p sx ex mem = mem"
  by (rule mem_eqI[of _ p]) (auto simp: row_result_at row_result_other)

lemma row_result_step:
  "sx < ex \<Longrightarrow> row_result F p (sx + 1) ex (mem(ptr_add p sx := F sx)) = row_result F p sx ex mem"
  by (rule mem_eqI[of _ p]) (auto simp: row_result_at row_result_other)

lemma row_result_append:
  "sx \<le> mx \<Longrightarrow> mx \<le> ex \<Longrightarrow>
   row_result F p mx ex (row_result F p sx mx mem) = row_result F p sx ex mem"
  by (rule mem_eqI[of _ p]) (auto simp: row_result_at row_result_other)

lemma row_result_cong:
  "(\<And>x. sx \<le> x \<Longrightarrow> x < ex \<Longrightarrow> F x = G x) \<Longrightarrow> row_result F p sx ex mem = row_result G p sx ex mem"
  by (rule mem_eqI[of _ p]) (auto simp: row_result_at row_result_other)

lemma store_lanes:
  "foldl (\<lambda>m j. m(ptr_add p (int j) := v ! j)) mem [0..<n]
     = row_result (\<lambda>y. v ! nat y) p 0 (int n) mem"
proof (induction n)
  case 0
  show ?case by (simp add: row_result_empty)
next
  case (Suc n)
  have h: "(row_result (\<lambda>y. v ! nat y) p 0 (int n) mem)(ptr_add p (int n) := v ! n)
      = row_result (\<lambda>y. v ! nat y) p 0 (int (Suc n)) mem"
    by (rule mem_eqI[of _ p]) (auto simp: row_result_at row_result_other)
  show ?case
    by (simp only: upt_Suc_append[OF le0] foldl_append foldl_Cons foldl_Nil Suc h)
qed

lemma vst1q_u8_result:
  "vst1q_u8 mem (ptr_add p x) (map G [0..<16])
     = row_result (\<lambda>y. G (nat (y - x))) p x (x + 16) mem"
proof -
  let ?F = "\<lambda>y. map G [0..<16] ! nat y"
  have "row_result ?F (ptr_add p x) 0 16 mem
      = row_result (\<lambda>y. G (nat (y - x))) p x (x + 16) mem"
  proof (rule mem_eqI[of _ p])
    fix y
    have L: "row_result ?F (ptr_add p x) 0 16 mem (ptr_add p y)
        = (if 0 \<le> y - x \<and> y - x < 16 then ?F (y - x) else mem (ptr_add p y))"
      using row_result_at[of ?F "ptr_add p x" 0 16 mem "y - x"] by simp
    show "row_result ?F (ptr_add p x) 0 16 mem (ptr_add p y)
      = row_result (\<lambda>y. G (nat (y - x))) p x (x + 16) mem (ptr_add p y)"
    proof (cases "x \<le> y \<and> y < x + 16")
      case True
      then have "nat (y - x) < 16" by linarith
      then have "?F (y - x) = G (nat (y - x))" by simp
      then show ?thesis using True by (simp add: L row_result_at)
    next
      case False
      then show ?thesis by (auto simp: L row_result_at)
    qed
  next
    fix c assume a: "\<forall>x. c \<noteq> ptr_add p x"
    then have b: "\<forall>y. c \<noteq> ptr_add (ptr_add p x) y" by simp
    show "row_result ?F (ptr_add p x) 0 16 mem c
      = row_result (\<lambda>y. G (nat (y - x))) p x (x + 16) mem c"
      by (simp only: row_result_other[OF a] row_result_other[OF b])
  qed
  moreover have "vst1q_u8 mem (ptr_add p x) (map G [0..<16])
      = row_result ?F (ptr_add p x) 0 (int 16) mem"
    by (simp only: vst1q_u8_def store_lanes)
  ultimately show ?thesis by simp
qed

lemma lanes16: "concat [vld1q_s32 mem (ptr_add p (x + 0)), vld1q_s32 mem (ptr_add p (x + 4)),
     vld1q_s32 mem (ptr_add p (x + 8)), vld1q_s32 mem (ptr_add p (x + 12))]
   = map (\<lambda>j. mem (ptr_add p (x + int j))) [0..<16]"
  by (simp add: vld1q_s32_def upt_rec numeral_eq_Suc add.assoc)

lemma lanes16_bias: "concat
    [vaddq_s32 (vld1q_s32 im (ptr_add ip (x + 0))) (vld1q_s32 bm (ptr_add bp (x + 0))),
     vaddq_s32 (vld1q_s32 im (ptr_add ip (x + 4))) (vld1q_s32 bm (ptr_add bp (x + 4))),
     vaddq_s32 (vld1q_s32 im (ptr_add ip (x + 8))) (vld1q_s32 bm (ptr_add bp (x + 8))),
     vaddq_s32 (vld1q_s32 im (ptr_add ip (x + 12))) (vld1q_s32 bm (ptr_add bp (x + 12)))]
   = map (\<lambda>j. im (ptr_add ip (x + int j)) + bm (ptr_add bp (x + int j))) [0..<16]"
  by (simp add: vld1q_s32_def vaddq_s32_def upt_rec numeral_eq_Suc add.assoc)

lemma x16_lanes:
  "finalize_quantization_x16 b [v0, v1, v2, v3] m sh (vdupq_n_s32 off) (vdupq_n_u8 lo) (vdupq_n_u8 hi)
     = map (\<lambda>j. finalize_quantization b (concat [v0, v1, v2, v3] ! j) m sh off lo hi) [0..<16]"
  by (simp add: finalize_quantization_x16_def vdupq_n_s32_def vdupq_n_u8_def)

lemma batch_nobias_lanes:
  "batch_nobias b k im ip x = map (\<lambda>j. quantize b k (im (ptr_add ip (x + int j)))) [0..<16]"
  unfolding batch_nobias_def Let_def x16_lanes lanes16
  by (simp add: quantize_def)

lemma batch_bias_lanes:
  "batch_bias b k im ip bm bp x
     = map (\<lambda>j. quantize b k (im (ptr_add ip (x + int j)) + bm (ptr_add bp (x + int j)))) [0..<16]"
  unfolding batch_bias_def Let_def
  apply (simp only: nth_Cons_0 nth_Cons_Suc One_nat_def numeral_2_eq_2 numeral_3_eq_3 x16_lanes lanes16_bias)
  apply (simp add: quantize_def)
  done

lemma leftover_loop_nobias_result:
  "leftover_loop_nobias b k im ip op ex x om
     = row_result (\<lambda>x. quantize b k (im (ptr_add ip x))) op x ex om"
proof (induction b k im ip op ex x om rule: leftover_loop_nobias.induct)
  case (1 b k im ip op ex x om)
  let ?Q = "\<lambda>x. quantize b k (im (ptr_add ip x))"
  show ?case
  proof (cases "x < ex")
    case True
    have step: "leftover_loop_nobias b k im ip op ex x om
        = leftover_loop_nobias b k im ip op ex (x + 1) (om(ptr_add op x := ?Q x))"
      by (subst leftover_loop_nobias.simps) (simp only: True if_True Let_def quantize_def)
    have ih: "leftover_loop_nobias b k im ip op ex (x + 1) (om(ptr_add op x := ?Q x))
        = row_result ?Q op (x + 1) ex (om(ptr_add op x := ?Q x))"
      using "1.IH"[OF True refl] by (simp only: quantize_def)
    have rs: "row_result ?Q op (x + 1) ex (om(ptr_add op x := ?Q x)) = row_result ?Q op x ex om"
      using row_result_step[OF True, where F = ?Q and p = op and mem = om] .
    show ?thesis by (simp only: step ih rs)
  next
    case False
    then show ?thesis
      by (subst leftover_loop_nobias.simps) (simp add: row_result_empty)
  qed
qed

lemma leftover_loop_bias_result:
  "leftover_loop_bias b k im ip bm bp op ex x om
     = row_result (\<lambda>x. quantize b k (im (ptr_add ip x) + bm (ptr_add bp x))) op x ex om"
proof (induction b k im ip bm bp op ex x om rule: leftover_loop_bias.induct)
  case (1 b k im ip bm bp op ex x om)
  let ?Q = "\<lambda>x. quantize b k (im (ptr_add ip x) + bm (ptr_add bp x))"
  show ?case
  proof (cases "x < ex")
    case True
    have step: "leftover_loop_bias b k im ip bm bp op ex x om
        = leftover_loop_bias b k im ip bm bp op ex (x + 1) (om(ptr_add op x := ?Q x))"
      by (subst leftover_loop_bias.simps) (simp only: True if_True Let_def quantize_def)
    have ih: "leftover_loop_bias b k im ip bm bp op ex (x + 1) (om(ptr_add op x := ?Q x))
        = row_result ?Q op (x + 1) ex (om(ptr_add op x := ?Q x))"
      using "1.IH"[OF True refl refl refl] by (simp only: quantize_def)
    have rs: "row_result ?Q op (x + 1) ex (om(ptr_add op x := ?Q x)) = row_result ?Q op x ex om"
      using row_result_step[OF True, where F = ?Q and p = op and mem = om] .
    show ?thesis by (simp only: step ih rs)
  next
    case False
    then show ?thesis
      by (subst leftover_loop_bias.simps) (simp add: row_result_empty)
  qed
qed

lemma batch_store:
  assumes "\<And>j. j < 16 \<Longrightarrow> G j = Q (x + int j)"
  shows "vst1q_u8 mem (ptr_add p x) (map G [0..<16]) = row_result Q p x (x + 16) mem"
proof -
  have "row_result (\<lambda>y. G (nat (y - x))) p x (x + 16) mem = row_result Q p x (x + 16) mem"
  proof (rule row_result_cong)
    fix y assume "x \<le> y" "y < x + 16"
    then have "nat (y - x) < 16" by linarith
    from assms[OF this] show "G (nat (y - x)) = Q y" using \<open>x \<le> y\<close> by simp
  qed
  then show ?thesis by (simp only: vst1q_u8_result)
qed

lemma batch_loop_nobias_result:
  "leftover_loop_nobias b k im ip op ex
       (fst (batch_loop_nobias b k im ip op ex x om)) (snd (batch_loop_nobias b k im ip op ex x om))
     = row_result (\<lambda>x. quantize b k (im (ptr_add ip x))) op x ex om"
proof (induction b k im ip op ex x om rule: batch_loop_nobias.induct)
  case (1 b k im ip op ex x om)
  let ?Q = "\<lambda>x. quantize b k (im (ptr_add ip x))"
  show ?case
  proof (cases "x \<le> ex - 16")
    case True
    have st: "vst1q_u8 om (ptr_add op x) (batch_nobias b k im ip x) = row_result ?Q op x (x + 16) om"
      unfolding batch_nobias_lanes by (rule batch_store) simp
    have ap: "row_result ?Q op (x + 16) ex (row_result ?Q op x (x + 16) om) = row_result ?Q op x ex om"
      using True by (intro row_result_append) auto
    have step: "batch_loop_nobias b k im ip op ex x om
        = batch_loop_nobias b k im ip op ex (x + 16) (row_result ?Q op x (x + 16) om)"
      by (subst batch_loop_nobias.simps) (simp only: True if_True st)
    show ?thesis
      using "1.IH"[OF True] by (simp only: step st ap)
  next
    case False
    then show ?thesis
      by (subst (1 2) batch_loop_nobias.simps) (simp add: leftover_loop_nobias_result)
  qed
qed

lemma row_nobias_result:
  "row_nobias b k im ip op sx ex om = row_result (\<lambda>x. quantize b k (im (ptr_add ip x))) op sx ex om"
  by (simp add: row_nobias_def split_beta batch_loop_nobias_result)

lemma batch_loop_bias_result:
  "leftover_loop_bias b k im ip bm bp op ex
       (fst (batch_loop_bias b k im ip bm bp op ex x om))
       (snd (batch_loop_bias b k im ip bm bp op ex x om))
     = row_result (\<lambda>x. quantize b k (im (ptr_add ip x) + bm (ptr_add bp x))) op x ex om"
proof (induction b k im ip bm bp op ex x om rule: batch_loop_bias.induct)
  case (1 b k im ip bm bp op ex x om)
  let ?Q = "\<lambda>x. quantize b k (im (ptr_add ip x) + bm (ptr_add bp x))"
  show ?case
  proof (cases "x \<le> ex - 16")
    case True
    have st: "vst1q_u8 om (ptr_add op x) (batch_bias b k im ip bm bp x)
        = row_result ?Q op x (x + 16) om"
      unfolding batch_bias_lanes by (rule batch_store) simp
    have ap: "row_result ?Q op (x + 16) ex (row_result ?Q op x (x + 16) om) = row_result ?Q op x ex om"
      using True by (intro row_result_append) auto
    have step: "batch_loop_bias b k im ip bm bp op ex x om
        = batch_loop_bias b k im ip bm bp op ex (x + 16) (row_result ?Q op x (x + 16) om)"
      by (subst batch_loop_bias.simps) (simp only: True if_True st)
    show ?thesis
      using "1.IH"[OF True] by (simp only: step st ap)
  next
    case False
    then show ?thesis
      by (subst (1 2) batch_loop_bias.simps) (simp add: leftover_loop_bias_result)
  qed
qed

lemma row_bias_result:
  "row_bias b k im ip bm bp op sx ex om
     = row_result (\<lambda>x. quantize b k (im (ptr_add ip x) + bm (ptr_add bp x))) op sx ex om"
  by (simp add: row_bias_def split_beta batch_loop_bias_result)

section \<open>The batch path against one element at a time\<close>

lemma one_at_a_time_result:
  "one_at_a_time b k element p sx ex om = row_result (\<lambda>x. quantize b k (element x)) p sx ex om"
proof (induction "nat (ex - sx)" arbitrary: sx om)
  case 0
  then have "ex \<le> sx" by simp
  then show ?case by (simp add: one_at_a_time_def row_result_empty)
next
  case (Suc n)
  then have lt: "sx < ex" and n: "n = nat (ex - (sx + 1))" by simp_all
  let ?Q = "\<lambda>x. quantize b k (element x)"
  have "[sx..ex - 1] = sx # [sx + 1..ex - 1]" using lt by (simp add: upto_rec1)
  then have "one_at_a_time b k element p sx ex om
      = one_at_a_time b k element p (sx + 1) ex (om(ptr_add p sx := ?Q sx))"
    by (simp add: one_at_a_time_def)
  also have "\<dots> = row_result ?Q p (sx + 1) ex (om(ptr_add p sx := ?Q sx))"
    by (rule Suc.hyps(1)[OF n])
  also have "\<dots> = row_result ?Q p sx ex om"
    using row_result_step[OF lt, where F = ?Q and p = p and mem = om] .
  finally show ?case .
qed

lemma batch_loop_33:
  "fst (batch_loop_nobias b k im ip op 33 0 om) = 32"
  by (simp add: batch_loop_nobias.simps[of _ _ _ _ _ _ 0] batch_loop_nobias.simps[of _ _ _ _ _ _ 16]
        batch_loop_nobias.simps[of _ _ _ _ _ _ 32])

text \<open>
  Claim C5. For every row, whatever its start, its end and the contents of the input,
  the 16-wide batch loop followed by the left-over loop writes exactly the output that
  processing every element one at a time with the scalar rule writes; this holds with and
  without a bias. The lanes of the batch path are the scalar rule by the model of the
  vector \<^verbatim>\<open>finalize_quantization\<close>.
\<close>

theorem batch_and_leftover_equal_one_at_a_time:
  "row_bias b k in_mem in_ptr bias_mem bias_ptr out_ptr sx ex out_mem
     = one_at_a_time b k (\<lambda>x. in_mem (ptr_add in_ptr x) + bias_mem (ptr_add bias_ptr x))
         out_ptr sx ex out_mem
   \<and> row_nobias b k in_mem in_ptr out_ptr sx ex out_mem
     = one_at_a_time b k (\<lambda>x. in_mem (ptr_add in_ptr x)) out_ptr sx ex out_mem"
  by (simp only: row_bias_result row_nobias_result one_at_a_time_result)

text \<open>Thirty-three elements: two batches of sixteen, then one left-over element.\<close>

theorem batch_and_leftover_equal_one_at_a_time_witness:
  "row_nobias True new_kernel (\<lambda>c. 7) [0] [0] 0 33 (\<lambda>c. 0)
     = one_at_a_time True new_kernel (\<lambda>x. 7) [0] 0 33 (\<lambda>c. 0)
   \<and> fst (batch_loop_nobias True new_kernel (\<lambda>c. 7) [0] [0] 33 0 (\<lambda>c. 0)) = 32"
  using batch_and_leftover_equal_one_at_a_time[of True new_kernel "\<lambda>c. 7" "[0]" "\<lambda>c. 0" "[0]" "[0]" 0 33 "\<lambda>c. 0"]
    batch_loop_33[of True new_kernel "\<lambda>c. 7" "[0]" "[0]" "\<lambda>c. 0"]
  by simp

section \<open>\<^verbatim>\<open>validate\<close>\<close>

lemma validate_and_configure_window_status:
  "fst (fst (validate_and_configure_window s i out)) = OK"
  by (simp add: validate_and_configure_window_def clone_def Let_def)

lemma validate_arguments_fails_iff:
  "validate_arguments s i bias out mn mx \<noteq> OK \<longleftrightarrow>
     (data_type (infos s i) \<noteq> S32 \<or> num_channels (infos s i) \<noteq> 1
      \<or> 255 < sint mx
      \<or> sint mn < 0 \<or> sint mx < sint mn
      \<or> (case bias of None \<Rightarrow> False
          | Some b \<Rightarrow> data_type (infos s b) \<noteq> data_type (infos s i)
                     \<or> 1 < num_dimensions (infos s b)
                     \<or> dimension (infos s b) 0 \<noteq> dimension (infos s i) 0)
      \<or> (total_size (infos s out) \<noteq> 0
          \<and> (data_type (infos s out) \<noteq> QASYMM8 \<or> num_channels (infos s out) \<noteq> 1
               \<or> tensor_shape (infos s out) \<noteq> tensor_shape (infos s i))))"
  by (cases bias)
     (auto simp: validate_arguments_def error_on_data_type_channel_not_in_def
        error_on_mismatching_data_types_def error_on_mismatching_shapes_def)

text \<open>
  Claim C7. \<^verbatim>\<open>validate\<close>, called on an input and an output descriptor, returns, and
  it returns a failure exactly when one of these holds: the input is not int32 with one
  channel; \<open>max > 255\<close>; \<open>min < 0\<close> or \<open>min > max\<close>; there is a bias and its element type
  differs from the input's, or it has more than one dimension, or its extent 0 differs
  from the input's; the output is not empty and is not \<open>QASYMM8\<close> with one channel, or its
  shape differs from the input's. Otherwise it returns success.
\<close>

theorem validate_fails_exactly:
  "\<exists>st s'. validate s (Some i) bias (Some out) mn mx = Inr (st, s')
     \<and> (st \<noteq> OK) =
       (data_type (infos s i) \<noteq> S32 \<or> num_channels (infos s i) \<noteq> 1
        \<or> 255 < sint mx
        \<or> sint mn < 0 \<or> sint mx < sint mn
        \<or> (case bias of None \<Rightarrow> False
            | Some b \<Rightarrow> data_type (infos s b) \<noteq> data_type (infos s i)
                       \<or> 1 < num_dimensions (infos s b)
                       \<or> dimension (infos s b) 0 \<noteq> dimension (infos s i) 0)
        \<or> (total_size (infos s out) \<noteq> 0
            \<and> (data_type (infos s out) \<noteq> QASYMM8 \<or> num_channels (infos s out) \<noteq> 1
                 \<or> tensor_shape (infos s out) \<noteq> tensor_shape (infos s i))))"
proof (cases "validate_arguments s i bias out mn mx")
  case OK
  obtain w s3 where v: "validate_and_configure_window (snd (clone (snd (clone s i)) out))
      (fst (clone s i)) (fst (clone (snd (clone s i)) out)) = ((OK, w), s3)"
    using validate_and_configure_window_status
    by (metis prod.collapse)
  have "validate s (Some i) bias (Some out) mn mx = Inr (OK, s3)"
    using OK v by (simp add: validate_def split_beta)
  then show ?thesis
    using validate_arguments_fails_iff[of s i bias out mn mx] OK by simp
next
  case RUNTIME_ERROR
  then have "validate s (Some i) bias (Some out) mn mx = Inr (RUNTIME_ERROR, s)"
    by (simp add: validate_def)
  then show ?thesis
    using validate_arguments_fails_iff[of s i bias out mn mx] RUNTIME_ERROR by simp
qed

theorem validate_fails_exactly_witness:
  "\<exists>st s'. validate example_store (Some 0) (Some 1) (Some 2) 10 300 = Inr (st, s') \<and> st \<noteq> OK"
  using validate_fails_exactly[of example_store 0 "Some 1" 2 10 300]
  by auto

lemma vcw_frame:
  "a < brk s \<Longrightarrow> a \<noteq> out \<Longrightarrow> infos (snd (validate_and_configure_window s i out)) a = infos s a"
  by (simp add: validate_and_configure_window_def clone_def Let_def set_data_type_def
        auto_init_if_empty_def set_valid_region_def)

lemma vcw_buffers:
  "s32_buffer (snd (validate_and_configure_window s i out)) = s32_buffer s
   \<and> u8_buffer (snd (validate_and_configure_window s i out)) = u8_buffer s"
  by (simp add: validate_and_configure_window_def clone_def Let_def set_data_type_def
        auto_init_if_empty_def set_valid_region_def)

lemma validate_result:
  "validate s (Some i) bias (Some out) mn mx =
     (if validate_arguments s i bias out mn mx = OK
      then Inr (OK, snd (validate_and_configure_window (snd (clone (snd (clone s i)) out))
                      (fst (clone s i)) (fst (clone (snd (clone s i)) out))))
      else Inr (RUNTIME_ERROR, s))"
proof (cases "validate_arguments s i bias out mn mx")
  case OK
  obtain w s3 where v: "validate_and_configure_window (snd (clone (snd (clone s i)) out))
      (fst (clone s i)) (fst (clone (snd (clone s i)) out)) = ((OK, w), s3)"
    using validate_and_configure_window_status
    by (metis prod.collapse)
  show ?thesis using OK v by (simp add: validate_def split_beta)
next
  case RUNTIME_ERROR
  then show ?thesis by (simp add: validate_def)
qed

lemma validate_frame:
  assumes "a < brk s"
  shows "infos (snd (projr (validate s (Some i) bias (Some out) mn mx))) a = infos s a"
proof (cases "validate_arguments s i bias out mn mx = OK")
  case True
  let ?s2 = "snd (clone (snd (clone s i)) out)"
  have b: "a < brk ?s2" "a \<noteq> fst (clone (snd (clone s i)) out)"
    using assms by (simp_all add: clone_def)
  have "infos ?s2 a = infos s a" using assms by (simp add: clone_def)
  then show ?thesis using True vcw_frame[OF b] by (simp add: validate_result)
next
  case False
  then show ?thesis by (simp add: validate_result)
qed

text \<open>
  Claim C9. \<^verbatim>\<open>validate\<close> has no effect on its arguments: for descriptors that exist
  in the store, the input, the bias and the output descriptor are the same after the call
  as before, and so are the buffers. In particular an empty output descriptor stays empty:
  the window configuration that \<^verbatim>\<open>validate\<close> runs works on clones.
\<close>

theorem validate_leaves_descriptors:
  assumes "i < brk s" and "out < brk s" and "case bias of None \<Rightarrow> True | Some b \<Rightarrow> b < brk s"
  shows "\<exists>st s'. validate s (Some i) bias (Some out) mn mx = Inr (st, s')
     \<and> infos s' i = infos s i \<and> infos s' out = infos s out
     \<and> (case bias of None \<Rightarrow> True | Some b \<Rightarrow> infos s' b = infos s b)
     \<and> s32_buffer s' = s32_buffer s \<and> u8_buffer s' = u8_buffer s"
proof -
  obtain st s' where r: "validate s (Some i) bias (Some out) mn mx = Inr (st, s')"
    by (cases "validate_arguments s i bias out mn mx = OK") (simp_all add: validate_result)
  have f: "\<And>a. a < brk s \<Longrightarrow> infos s' a = infos s a"
    using validate_frame[of _ s i bias out mn mx] r by simp
  have bufs: "s32_buffer s' = s32_buffer s \<and> u8_buffer s' = u8_buffer s"
    using r vcw_buffers[of "snd (clone (snd (clone s i)) out)"]
    by (cases "validate_arguments s i bias out mn mx = OK")
       (auto simp: validate_result clone_def)
  have "case bias of None \<Rightarrow> True | Some b \<Rightarrow> infos s' b = infos s b"
    using assms(3) f by (cases bias) simp_all
  then show ?thesis using r f[OF assms(1)] f[OF assms(2)] bufs by simp
qed

theorem validate_leaves_descriptors_witness:
  "\<exists>st s'. validate example_store (Some 0) (Some 1) (Some 2) 10 200 = Inr (st, s')
     \<and> infos s' 0 = infos example_store 0 \<and> infos s' 2 = empty_info
     \<and> infos s' 1 = infos example_store 1"
  using validate_leaves_descriptors[of 0 example_store 2 "Some 1" 10 200]
  by (auto simp: example_store_def)

section \<open>\<^verbatim>\<open>configure\<close>\<close>

lemma configure_result:
  "configure s k (Some i) bias (Some out) m sh off mn mx =
     (if validate_arguments s i bias out mn mx = OK
      then Inr (snd (validate_and_configure_window s i out),
             k\<lparr>k_input := Some i, k_bias := bias, k_output := Some out,
               k_result_fixedpoint_multiplier := m, k_result_shift := sh,
               k_result_offset_after_shift := off, k_min := mn, k_max := mx,
               k_window := Some (snd (fst (validate_and_configure_window s i out))),
               k_func := Some (mn \<noteq> mx \<and> \<not> (mn = 0 \<and> mx = 255))\<rparr>)
      else Inl (Thrown RUNTIME_ERROR))"
proof (cases "validate_arguments s i bias out mn mx")
  case OK
  obtain w s1 where v: "validate_and_configure_window s i out = ((OK, w), s1)"
    using validate_and_configure_window_status by (metis prod.collapse)
  show ?thesis using OK v by (simp add: configure_def Let_def)
next
  case RUNTIME_ERROR
  then show ?thesis by (simp add: configure_def)
qed

lemma vcw_output:
  assumes "i < brk s" "out < brk s"
  shows "infos (snd (validate_and_configure_window s i out)) out =
     (if total_size (infos s out) = 0
      then (infos s out)\<lparr>data_type := QASYMM8, num_channels := num_channels (infos s i),
              tensor_shape := tensor_shape (infos s i),
              total_size := num_channels (infos s i) * prod_list (tensor_shape (infos s i)),
              valid_region := \<lparr>anchor = replicate (length (tensor_shape (infos s i))) 0,
                                region_shape = tensor_shape (infos s i)\<rparr>\<rparr>
      else (infos s out)\<lparr>valid_region :=
              \<lparr>anchor = replicate (length (tensor_shape (infos s out))) 0,
               region_shape = tensor_shape (infos s out)\<rparr>\<rparr>)"
  using assms
  by (simp add: validate_and_configure_window_def clone_def Let_def set_data_type_def
        auto_init_if_empty_def set_valid_region_def num_dimensions_def)

lemma vcw_window:
  assumes "i < brk s" "out < brk s"
  shows "snd (fst (validate_and_configure_window s i out))
     = map (\<lambda>extent. \<lparr>dim_start = 0, dim_end = int extent, dim_step = 1\<rparr>) (tensor_shape (infos s i))"
  using assms
  by (simp add: validate_and_configure_window_def clone_def Let_def set_data_type_def
        auto_init_if_empty_def set_valid_region_def calculate_max_window_def)

lemma validate_arguments_input:
  "validate_arguments s i bias out mn mx = OK \<Longrightarrow>
     data_type (infos s i) = S32 \<and> num_channels (infos s i) = 1"
  using validate_arguments_fails_iff[of s i bias out mn mx] by auto

lemma configure_kernel:
  assumes "configure s0 k0 (Some i) bias (Some out) m sh off mn mx = Inr (s1, k)"
  shows "k_input k = Some i \<and> k_output k = Some out \<and> k_bias k = bias
     \<and> k_func k = Some (mn \<noteq> mx \<and> \<not> (mn = 0 \<and> mx = 255))
     \<and> k_result_fixedpoint_multiplier k = m \<and> k_result_shift k = sh
     \<and> k_result_offset_after_shift k = off \<and> k_min k = mn \<and> k_max k = mx
     \<and> k_window k = Some (snd (fst (validate_and_configure_window s0 i out)))
     \<and> s1 = snd (validate_and_configure_window s0 i out)
     \<and> validate_arguments s0 i bias out mn mx = OK"
  using assms by (auto simp: configure_result split: if_splits)

lemma validate_arguments_bounds:
  "validate_arguments s i bias out mn mx = OK \<Longrightarrow>
     0 \<le> sint mn \<and> sint mn \<le> sint mx \<and> sint mx \<le> 255"
  using validate_arguments_fails_iff[of s i bias out mn mx] by auto

lemma validate_arguments_bias:
  "validate_arguments s i (Some bb) out mn mx = OK \<Longrightarrow> num_dimensions (infos s bb) \<le> 1"
  using validate_arguments_fails_iff[of s i "Some bb" out mn mx] by auto

lemma validate_arguments_shapes:
  "validate_arguments s i bias out mn mx = OK \<Longrightarrow> total_size (infos s out) \<noteq> 0 \<Longrightarrow>
     tensor_shape (infos s out) = tensor_shape (infos s i)"
  using validate_arguments_fails_iff[of s i bias out mn mx] by auto

lemma configure_dimensions:
  assumes "configure s0 k0 (Some i) bias (Some out) m sh off mn mx = Inr (s1, k)"
    and "i < brk s0" and "out < brk s0" and "i \<noteq> out"
    and "case bias of None \<Rightarrow> True | Some bb \<Rightarrow> bb < brk s0 \<and> bb \<noteq> out"
  shows "num_dimensions (infos s1 i) = num_dimensions (infos s1 out)
     \<and> (case bias of None \<Rightarrow> True | Some bb \<Rightarrow> num_dimensions (infos s1 bb) \<le> 1)"
proof -
  note c = configure_kernel[OF assms(1)]
  have s1: "s1 = snd (validate_and_configure_window s0 i out)" using c by simp
  have ok: "validate_arguments s0 i bias out mn mx = OK" using c by simp
  have i: "infos s1 i = infos s0 i" unfolding s1 using assms(2,4) by (rule vcw_frame)
  have o: "tensor_shape (infos s1 out) = tensor_shape (infos s0 i)"
    using validate_arguments_shapes[OF ok]
    by (simp add: s1 vcw_output[OF assms(2,3)])
  have b: "case bias of None \<Rightarrow> True | Some bb \<Rightarrow> num_dimensions (infos s1 bb) \<le> 1"
  proof (cases bias)
    case None
    then show ?thesis by simp
  next
    case (Some bb)
    then have "infos s1 bb = infos s0 bb"
      unfolding s1 using assms(5) by (intro vcw_frame) simp_all
    then show ?thesis using validate_arguments_bias[of s0 i bb out mn mx] ok Some by simp
  qed
  show ?thesis using i o b by (simp add: num_dimensions_def)
qed

lemma example_validate_arguments:
  "0 \<le> sint mn \<Longrightarrow> sint mn \<le> sint mx \<Longrightarrow> sint mx \<le> 255 \<Longrightarrow>
   validate_arguments example_store 0 None 2 mn mx = OK
   \<and> validate_arguments example_store 0 (Some 1) 2 mn mx = OK"
  by (simp add: validate_arguments_def example_store_def empty_info_def
        error_on_data_type_channel_not_in_def error_on_mismatching_data_types_def
        num_dimensions_def dimension_def)

lemma example_live:
  "(0::nat) < brk example_store" "(2::nat) < brk example_store" "(0::nat) \<noteq> 2"
  "case Some (1::nat) of None \<Rightarrow> True | Some bb \<Rightarrow> bb < brk example_store \<and> bb \<noteq> 2"
  "case None of None \<Rightarrow> True | Some bb \<Rightarrow> bb < brk example_store \<and> bb \<noteq> 2"
  by (simp_all add: example_store_def)

lemma example_window_configured:
  "snd (fst (validate_and_configure_window example_store 0 2)) = example_window"
  unfolding vcw_window[OF example_live(1,2)] by (simp add: example_store_def example_window_def)

lemma example_output_shape:
  "tensor_shape (infos (snd (validate_and_configure_window example_store 0 2)) 2) = [3, 2]
   \<and> data_type (infos (snd (validate_and_configure_window example_store 0 2)) 2) = QASYMM8
   \<and> num_channels (infos (snd (validate_and_configure_window example_store 0 2)) 2) = 1"
  unfolding vcw_output[OF example_live(1,2)] by (simp add: example_store_def empty_info_def)

text \<open>
  Claim C8. When \<^verbatim>\<open>configure\<close> succeeds on an output descriptor that was empty, the
  descriptor has the shape of the input, element type \<open>QASYMM8\<close> and one channel; a
  descriptor that was not empty keeps its shape and type. The window of the kernel is the
  maximal window of the input's shape, from 0 to the extent with step 1 in every
  dimension, and the valid region of the output is its whole shape.
\<close>

theorem configure_initialises_output:
  assumes "configure s k (Some i) bias (Some out) m sh off mn mx = Inr (s', k')"
    and "i < brk s" and "out < brk s"
  shows "(if total_size (infos s out) = 0
          then tensor_shape (infos s' out) = tensor_shape (infos s i)
             \<and> data_type (infos s' out) = QASYMM8 \<and> num_channels (infos s' out) = 1
          else tensor_shape (infos s' out) = tensor_shape (infos s out)
             \<and> data_type (infos s' out) = data_type (infos s out)
             \<and> num_channels (infos s' out) = num_channels (infos s out))
     \<and> k_window k' = Some (map (\<lambda>extent. \<lparr>dim_start = 0, dim_end = int extent, dim_step = 1\<rparr>)
                             (tensor_shape (infos s i)))
     \<and> valid_region (infos s' out) =
         \<lparr>anchor = replicate (length (tensor_shape (infos s' out))) 0,
          region_shape = tensor_shape (infos s' out)\<rparr>"
proof -
  have ok: "validate_arguments s i bias out mn mx = OK"
    using assms(1) by (simp add: configure_result split: if_splits)
  have s': "s' = snd (validate_and_configure_window s i out)"
    and k': "k_window k' = Some (snd (fst (validate_and_configure_window s i out)))"
    using assms(1) ok by (auto simp: configure_result)
  show ?thesis
    using validate_arguments_input[OF ok]
    by (simp add: s' k' vcw_output[OF assms(2,3)] vcw_window[OF assms(2,3)])
qed

theorem configure_initialises_output_witness:
  "\<exists>s' k'. configure example_store new_kernel (Some 0) (Some 1) (Some 2) (2 ^ 30) 2 128 10 200
       = Inr (s', k')
     \<and> tensor_shape (infos s' 2) = [3, 2] \<and> data_type (infos s' 2) = QASYMM8
     \<and> num_channels (infos s' 2) = 1
     \<and> k_window k' = Some example_window
     \<and> valid_region (infos s' 2) = \<lparr>anchor = [0, 0], region_shape = [3, 2]\<rparr>"
proof -
  have va: "validate_arguments example_store 0 (Some 1) 2 10 200 = OK"
    using example_validate_arguments[of 10 200] by simp
  obtain s1 k where conf: "configure example_store new_kernel (Some 0) (Some 1) (Some 2)
      (2 ^ 30) 2 128 10 200 = Inr (s1, k)"
    using va by (simp add: configure_result)
  have e: "total_size (infos example_store 2) = 0" "tensor_shape (infos example_store 0) = [3, 2]"
    by (simp_all add: example_store_def empty_info_def)
  show ?thesis
    using configure_initialises_output[OF conf example_live(1,2)] conf e
    by (simp add: example_window_def)
qed

section \<open>The output of \<^verbatim>\<open>run\<close>\<close>

lemma row_result_own:
  "row_result (\<lambda>x. G (ptr_add p x)) p sx ex mem = (\<lambda>c. if written p sx ex c then G c else mem c)"
  by (rule ext) (auto simp: row_result_def written_def)

lemma fold_rows:
  assumes "\<And>ks om. ks \<in> set kss \<Longrightarrow>
             rowf ks om = row_result (\<lambda>x. G (ptr_add (P ks) x)) (P ks) sx ex om"
  shows "fold rowf kss om = (\<lambda>c. if \<exists>ks\<in>set kss. written (P ks) sx ex c then G c else om c)"
  using assms
proof (induction kss arbitrary: om)
  case Nil
  show ?case by simp
next
  case (Cons a kss)
  have "fold rowf (a # kss) om = fold rowf kss (rowf a om)" by simp
  also have "\<dots> = (\<lambda>c. if \<exists>ks\<in>set kss. written (P ks) sx ex c then G c else rowf a om c)"
    using Cons.prems by (intro Cons.IH) simp
  also have "rowf a om = (\<lambda>c. if written (P a) sx ex c then G c else om c)"
    using Cons.prems[of a om] by (simp add: row_result_own)
  finally show ?case by auto
qed

lemma window_set_0: "window_set w 0 d = d # tl w"
  by (cases w) (simp_all add: window_set_def)

lemma collapsed_counters:
  "ks \<in> set (loop_counters (win_collapsed window)) \<Longrightarrow> counter ks 0 = 0"
  by (auto simp: win_collapsed_def DimX_def window_set_0 dim_iterations_def counter_def)

lemma collapsed_position:
  assumes "ks \<in> set (loop_counters (win_collapsed window))"
  shows "ptr_diff (ptr_add (iterator_position \<lparr>it_dimensions = n, it_window = win_collapsed window\<rparr> ks) x) [] = x"
proof (cases n)
  case 0
  then show ?thesis by (simp add: iterator_position_def)
next
  case (Suc m)
  have "[0..<Suc m] = 0 # [1..<Suc m]" by (simp add: upt_rec)
  then show ?thesis
    using collapsed_counters[OF assms] Suc
    by (simp add: iterator_position_def win_collapsed_def DimX_def window_set_0 window_dim_def)
qed

lemma bias_position:
  assumes "ks \<in> set (loop_counters (win_collapsed window))" and "n \<le> 1"
  shows "ptr_add (iterator_position \<lparr>it_dimensions = n, it_window =
            window_set (window_set [] DimX \<lparr>dim_start = 0, dim_end = 1, dim_step = 1\<rparr>) DimY
              \<lparr>dim_start = 0, dim_end = 1, dim_step = 1\<rparr>\<rparr> ks) x = [x]"
proof -
  from assms(2) have "n = 0 \<or> n = 1" by auto
  then show ?thesis
    using collapsed_counters[OF assms(1)]
    by (auto simp: iterator_position_def DimX_def DimY_def window_set_def window_dim_def)
qed

lemma run_template_nobias:
  assumes "k_input k = Some i" and "k_output k = Some out" and "k_bias k = None"
    and "num_dimensions (infos s i) = num_dimensions (infos s out)"
  shows "run_template b k window s = Inr (s\<lparr>u8_buffer := (u8_buffer s)(out :=
           (\<lambda>c. if \<exists>row\<in>set (visited_rows s out window).
                      written row (dim_start (window_dim window DimX))
                        (dim_end (window_dim window DimX)) c
                then quantize b k (s32_buffer s i c) else u8_buffer s out c))\<rparr>)"
proof -
  let ?wc = "win_collapsed window"
  let ?P = "iterator_position (make_iterator s out ?wc)"
  have it: "make_iterator s i ?wc = make_iterator s out ?wc"
    using assms(4) by (simp add: make_iterator_def)
  have "fold (\<lambda>ks. row_nobias b k (s32_buffer s i) (?P ks) (?P ks)
            (dim_start (window_dim window DimX)) (dim_end (window_dim window DimX)))
          (loop_counters ?wc) (u8_buffer s out)
      = (\<lambda>c. if \<exists>ks\<in>set (loop_counters ?wc). written (?P ks) (dim_start (window_dim window DimX))
                        (dim_end (window_dim window DimX)) c
              then quantize b k (s32_buffer s i c) else u8_buffer s out c)"
    by (rule fold_rows) (simp add: row_nobias_result)
  then show ?thesis
    using assms(1-3) it
    by (simp add: run_template_def Let_def execute_window_loop_def visited_rows_def
          win_collapsed_def[symmetric])
qed

lemma run_template_bias:
  assumes "k_input k = Some i" and "k_output k = Some out" and "k_bias k = Some bb"
    and "num_dimensions (infos s i) = num_dimensions (infos s out)"
    and "num_dimensions (infos s bb) \<le> 1"
  shows "run_template b k window s = Inr (s\<lparr>u8_buffer := (u8_buffer s)(out :=
           (\<lambda>c. if \<exists>row\<in>set (visited_rows s out window).
                      written row (dim_start (window_dim window DimX))
                        (dim_end (window_dim window DimX)) c
                then quantize b k (s32_buffer s i c + s32_buffer s bb [ptr_diff c []])
                else u8_buffer s out c))\<rparr>)"
proof -
  let ?wc = "win_collapsed window"
  let ?wb = "window_set (window_set [] DimX \<lparr>dim_start = 0, dim_end = 1, dim_step = 1\<rparr>) DimY
              \<lparr>dim_start = 0, dim_end = 1, dim_step = 1\<rparr>"
  let ?P = "iterator_position (make_iterator s out ?wc)"
  let ?B = "iterator_position (make_iterator s bb ?wb)"
  let ?G = "\<lambda>c. quantize b k (s32_buffer s i c + s32_buffer s bb [ptr_diff c []])"
  have it: "make_iterator s i ?wc = make_iterator s out ?wc"
    using assms(4) by (simp add: make_iterator_def)
  have "fold (\<lambda>ks. row_bias b k (s32_buffer s i) (?P ks) (s32_buffer s bb) (?B ks) (?P ks)
            (dim_start (window_dim window DimX)) (dim_end (window_dim window DimX)))
          (loop_counters ?wc) (u8_buffer s out)
      = (\<lambda>c. if \<exists>ks\<in>set (loop_counters ?wc). written (?P ks) (dim_start (window_dim window DimX))
                        (dim_end (window_dim window DimX)) c
              then ?G c else u8_buffer s out c)"
  proof (rule fold_rows)
    fix ks om assume ks: "ks \<in> set (loop_counters ?wc)"
    have 1: "\<And>x. ptr_add (?B ks) x = [x]"
      using bias_position[OF ks assms(5)] by (simp add: make_iterator_def)
    have 2: "\<And>x. ptr_diff (ptr_add (?P ks) x) [] = x"
      using collapsed_position[OF ks] by (simp add: make_iterator_def)
    show "row_bias b k (s32_buffer s i) (?P ks) (s32_buffer s bb) (?B ks) (?P ks)
            (dim_start (window_dim window DimX)) (dim_end (window_dim window DimX)) om
        = row_result (\<lambda>x. ?G (ptr_add (?P ks) x)) (?P ks)
            (dim_start (window_dim window DimX)) (dim_end (window_dim window DimX)) om"
      by (simp only: row_bias_result 1 2)
  qed
  then show ?thesis
    using assms(1-3) it
    by (simp add: run_template_def Let_def execute_window_loop_def visited_rows_def
          win_collapsed_def[symmetric])
qed

lemma run_template_output:
  assumes "k_input k = Some i" and "k_output k = Some out"
    and "num_dimensions (infos s i) = num_dimensions (infos s out)"
    and "case k_bias k of None \<Rightarrow> True | Some bb \<Rightarrow> num_dimensions (infos s bb) \<le> 1"
    and "run_template b k window s = Inr s'"
    and "row \<in> set (visited_rows s out window)"
    and "dim_start (window_dim window DimX) \<le> x" and "x < dim_end (window_dim window DimX)"
  shows "u8_buffer s' out (ptr_add row x)
     = quantize b k (s32_buffer s i (ptr_add row x)
         + (case k_bias k of None \<Rightarrow> 0 | Some bb \<Rightarrow> s32_buffer s bb [x]))"
proof (cases "k_bias k")
  case None
  have w: "\<exists>r\<in>set (visited_rows s out window). written r (dim_start (window_dim window DimX))
             (dim_end (window_dim window DimX)) (ptr_add row x)"
    using assms(6-8) by (intro bexI[of _ row]) simp_all
  show ?thesis
    using assms(5) w None unfolding run_template_nobias[OF assms(1,2) None assms(3)]
    by auto
next
  case (Some bb)
  have d: "num_dimensions (infos s bb) \<le> 1" using assms(4) Some by simp
  have w: "\<exists>r\<in>set (visited_rows s out window). written r (dim_start (window_dim window DimX))
             (dim_end (window_dim window DimX)) (ptr_add row x)"
    using assms(6-8) by (intro bexI[of _ row]) simp_all
  obtain ks where ks: "ks \<in> set (loop_counters (win_collapsed window))"
    and row: "row = iterator_position (make_iterator s out (win_collapsed window)) ks"
    using assms(6) by (auto simp: visited_rows_def)
  have c: "ptr_diff (ptr_add row x) [] = x"
    using collapsed_position[OF ks] by (simp add: row make_iterator_def)
  show ?thesis
    using assms(5) w Some c unfolding run_template_bias[OF assms(1,2) Some assms(3) d]
    by auto
qed

lemma uint_saturate_u8: "uint (saturate_u8 w) = max 0 (min 255 (sint w))"
  using ucast_in_range[of w] by (auto simp: saturate_u8_def)

lemma uint_quantize:
  assumes "0 \<le> sint (k_min k)" "sint (k_min k) \<le> sint (k_max k)" "sint (k_max k) \<le> 255"
  shows "uint (quantize b k v) =
     (let r = sint (rounding_shift_right (rounding_multiply_high v (k_result_fixedpoint_multiplier k))
                      (k_result_shift k) + k_result_offset_after_shift k)
      in if b then max (sint (k_min k)) (min (sint (k_max k)) r) else max 0 (min 255 r))"
  using assms ucast_in_range[of "k_min k"] ucast_in_range[of "k_max k"]
  by (auto simp: quantize_def finalize_quantization_def Let_def uint_max_u8 uint_min_u8
        uint_saturate_u8)

lemma run_configured:
  assumes "configure s0 k0 (Some i) bias (Some out) m sh off mn mx = Inr (s1, k)"
    and "run k window info s = Inr s'"
  shows "run_template (mn \<noteq> mx \<and> \<not> (mn = 0 \<and> mx = 255)) k window s = Inr s'"
  using assms(2) configure_kernel[OF assms(1)]
  by (auto simp: run_def split: if_splits)

lemma run_output:
  assumes "configure s0 k0 (Some i) bias (Some out) m sh off mn mx = Inr (s1, k)"
    and "i < brk s0" and "out < brk s0" and "i \<noteq> out"
    and "case bias of None \<Rightarrow> True | Some bb \<Rightarrow> bb < brk s0 \<and> bb \<noteq> out"
    and "infos s = infos s1"
    and "run k window info s = Inr s'"
    and "row \<in> set (visited_rows s out window)"
    and "dim_start (window_dim window DimX) \<le> x" and "x < dim_end (window_dim window DimX)"
  shows "u8_buffer s' out (ptr_add row x)
     = quantize (mn \<noteq> mx \<and> \<not> (mn = 0 \<and> mx = 255)) k (s32_buffer s i (ptr_add row x)
         + (case bias of None \<Rightarrow> 0 | Some bb \<Rightarrow> s32_buffer s bb [x]))"
proof -
  note c = configure_kernel[OF assms(1)]
  note d = configure_dimensions[OF assms(1-5)]
  have 1: "k_input k = Some i" and 2: "k_output k = Some out" and 3: "k_bias k = bias"
    using c by simp_all
  have 4: "num_dimensions (infos s i) = num_dimensions (infos s out)"
    using d assms(6) by simp
  have 5: "case k_bias k of None \<Rightarrow> True | Some bb \<Rightarrow> num_dimensions (infos s bb) \<le> 1"
    using d assms(6) 3 by (cases bias) simp_all
  show ?thesis
    using run_template_output[OF 1 2 4 5 run_configured[OF assms(1,7)] assms(8-10)] 3
    by simp
qed

lemma run_template_returns:
  "k_input k = Some i \<Longrightarrow> k_output k = Some out \<Longrightarrow> \<exists>s'. run_template b k window s = Inr s'"
  by (simp add: run_template_def Let_def split: option.split)

lemma run_returns:
  assumes "configure s0 k0 (Some i) bias (Some out) m sh off mn mx = Inr (s1, k)"
    and "is_valid_subwindow (snd (fst (validate_and_configure_window s0 i out))) window"
  shows "\<exists>s'. run k window info s = Inr s'"
  using configure_kernel[OF assms(1)] assms(2)
    run_template_returns[of k i out "mn \<noteq> mx \<and> \<not> (mn = 0 \<and> mx = 255)" window s]
  by (simp add: run_def)

lemma example_valid: "is_valid_subwindow example_window example_window"
  by (simp add: is_valid_subwindow_def example_window_def window_dim_def upt_rec numeral_eq_Suc)

lemma example_visited:
  "[0, 0] \<in> set (visited_rows (snd (validate_and_configure_window example_store 0 2)) 2 example_window)
   \<and> [0, 1] \<in> set (visited_rows (snd (validate_and_configure_window example_store 0 2)) 2 example_window)"
proof -
  have nd: "num_dimensions (infos (snd (validate_and_configure_window example_store 0 2)) 2) = 2"
    by (simp add: num_dimensions_def example_output_shape)
  show ?thesis
    unfolding visited_rows_def make_iterator_def nd
    by (simp add: win_collapsed_def collapse_if_possible_def window_set_0 DimX_def DimZ_def
          example_window_def dim_iterations_def iterator_position_def counter_def window_dim_def
          upt_rec numeral_eq_Suc)
qed

lemma example_x:
  "dim_start (window_dim example_window DimX) \<le> 2" "2 < dim_end (window_dim example_window DimX)"
  by (simp_all add: example_window_def window_dim_def DimX_def)

lemma example_buffers:
  "s32_buffer (snd (validate_and_configure_window example_store 0 2)) 0 [2, 1] = 1000"
  "s32_buffer (snd (validate_and_configure_window example_store 0 2)) 0 [2, 0] = 0"
  "s32_buffer (snd (validate_and_configure_window example_store 0 2)) 1 [2] = 24"
  using vcw_buffers[of example_store 0 2] by (simp_all add: example_store_def)

text \<open>
  Claim C1. For a kernel that \<^verbatim>\<open>configure\<close> has configured on three distinct tensors,
  and a run on the descriptors as \<^verbatim>\<open>configure\<close> left them, every element \<open>v\<close> of
  every visited row (the input element plus, where there is a bias, the bias element of
  its column) is stored as this byte: \<open>v\<close> times the multiplier by the rounding
  multiply-high, shifted right by the shift with rounding, plus the offset, all in int32;
  then saturated into \<open>[0, 255]\<close>, and clamped into \<open>[min, max]\<close> instead when the
  bounded-clamp policy is active. The rule is the one the spec gives for
  \<^verbatim>\<open>finalize_quantization\<close>.
\<close>

theorem run_stores_quantization_rule:
  assumes "configure s0 k0 (Some i) bias (Some out) m sh off mn mx = Inr (s1, k)"
    and "i < brk s0" and "out < brk s0" and "i \<noteq> out"
    and "case bias of None \<Rightarrow> True | Some bb \<Rightarrow> bb < brk s0 \<and> bb \<noteq> out"
    and "infos s = infos s1"
    and "run k window info s = Inr s'"
    and "row \<in> set (visited_rows s out window)"
    and "dim_start (window_dim window DimX) \<le> x" and "x < dim_end (window_dim window DimX)"
  shows "uint (u8_buffer s' out (ptr_add row x)) =
     (let v = s32_buffer s i (ptr_add row x)
                + (case bias of None \<Rightarrow> 0 | Some bb \<Rightarrow> s32_buffer s bb [x]);
          r = sint (rounding_shift_right (rounding_multiply_high v m) sh + off)
      in if mn \<noteq> mx \<and> \<not> (mn = 0 \<and> mx = 255)
         then max (sint mn) (min (sint mx) r)
         else max 0 (min 255 r))"
proof -
  note c = configure_kernel[OF assms(1)]
  have b: "0 \<le> sint (k_min k)" "sint (k_min k) \<le> sint (k_max k)" "sint (k_max k) \<le> 255"
    using c validate_arguments_bounds[of s0 i bias out mn mx] by simp_all
  show ?thesis
    unfolding run_output[OF assms] uint_quantize[OF b]
    using c by (simp add: Let_def)
qed

theorem run_stores_quantization_rule_witness:
  "\<exists>s1 k s'. configure example_store new_kernel (Some 0) (Some 1) (Some 2) (2 ^ 30) 2 128 10 200
        = Inr (s1, k)
     \<and> run k example_window example_info s1 = Inr s'
     \<and> uint (u8_buffer s' 2 [2, 1]) = 192"
proof -
  have va: "validate_arguments example_store 0 (Some 1) 2 10 200 = OK"
    using example_validate_arguments[of 10 200] by simp
  obtain s1 k where conf: "configure example_store new_kernel (Some 0) (Some 1) (Some 2)
      (2 ^ 30) 2 128 10 200 = Inr (s1, k)"
    using va by (simp add: configure_result)
  have s1: "s1 = snd (validate_and_configure_window example_store 0 2)"
    using configure_kernel[OF conf] by simp
  obtain s' where run: "run k example_window example_info s1 = Inr s'"
    using run_returns[OF conf, of example_window example_info s1] example_valid
      example_window_configured by auto
  have row: "[0, 1] \<in> set (visited_rows s1 2 example_window)"
    using example_visited by (simp add: s1)
  have "uint (u8_buffer s' 2 [2, 1]) = 192"
    using run_stores_quantization_rule[OF conf example_live(1,2,3,4) refl run row example_x]
      example_buffers
    by (simp add: s1 rounding_multiply_high_def rounding_shift_right_def)
  then show ?thesis using conf run by blast
qed

text \<open>
  Claim C6. With a bias, \<^verbatim>\<open>run\<close> adds the bias before the quantization and indexes
  it by the innermost coordinate alone: for every visited row and every column \<open>x\<close> of the
  window, the output at \<open>(x, row)\<close> is the quantization of the input at \<open>(x, row)\<close> plus
  the bias at \<open>x\<close>, whatever the outer coordinates of the row are.
\<close>

theorem bias_is_broadcast:
  assumes "configure s0 k0 (Some i) (Some bb) (Some out) m sh off mn mx = Inr (s1, k)"
    and "i < brk s0" and "out < brk s0" and "i \<noteq> out"
    and "bb < brk s0" and "bb \<noteq> out"
    and "infos s = infos s1"
    and "run k window info s = Inr s'"
    and "row \<in> set (visited_rows s out window)"
    and "dim_start (window_dim window DimX) \<le> x" and "x < dim_end (window_dim window DimX)"
  shows "u8_buffer s' out (ptr_add row x)
     = quantize (mn \<noteq> mx \<and> \<not> (mn = 0 \<and> mx = 255)) k
         (s32_buffer s i (ptr_add row x) + s32_buffer s bb [x])"
proof -
  have b: "case Some bb of None \<Rightarrow> True | Some b' \<Rightarrow> b' < brk s0 \<and> b' \<noteq> out"
    using assms(5,6) by simp
  show ?thesis
    using run_output[OF assms(1-4) b assms(7-11)] by simp
qed

theorem bias_is_broadcast_witness:
  "\<exists>s1 k s'. configure example_store new_kernel (Some 0) (Some 1) (Some 2) (2 ^ 30) 2 128 10 200
        = Inr (s1, k)
     \<and> run k example_window example_info s1 = Inr s'
     \<and> u8_buffer s' 2 [2, 0] = quantize True k (0 + 24)
     \<and> u8_buffer s' 2 [2, 1] = quantize True k (1000 + 24)
     \<and> quantize True k (0 + 24) = 130 \<and> quantize True k (1000 + 24) = 192"
proof -
  have va: "validate_arguments example_store 0 (Some 1) 2 10 200 = OK"
    using example_validate_arguments[of 10 200] by simp
  obtain s1 k where conf: "configure example_store new_kernel (Some 0) (Some 1) (Some 2)
      (2 ^ 30) 2 128 10 200 = Inr (s1, k)"
    using va by (simp add: configure_result)
  note ck = configure_kernel[OF conf]
  have s1: "s1 = snd (validate_and_configure_window example_store 0 2)" using ck by simp
  obtain s' where run: "run k example_window example_info s1 = Inr s'"
    using run_returns[OF conf, of example_window example_info s1] example_valid
      example_window_configured by auto
  have row0: "[0, 0] \<in> set (visited_rows s1 2 example_window)"
    and row1: "[0, 1] \<in> set (visited_rows s1 2 example_window)"
    using example_visited by (simp_all add: s1)
  have live: "(1::nat) < brk example_store" "(1::nat) \<noteq> 2" by (simp_all add: example_store_def)
  have 0: "u8_buffer s' 2 [2, 0] = quantize True k (0 + 24)"
    using bias_is_broadcast[OF conf example_live(1,2,3) live refl run row0 example_x]
      example_buffers by (simp add: s1)
  have 1: "u8_buffer s' 2 [2, 1] = quantize True k (1000 + 24)"
    using bias_is_broadcast[OF conf example_live(1,2,3) live refl run row1 example_x]
      example_buffers by (simp add: s1)
  have q: "quantize True k (0 + 24) = 130 \<and> quantize True k (1000 + 24) = 192"
    using ck by (simp add: quantize_def finalize_quantization_def rounding_multiply_high_def
          rounding_shift_right_def saturate_u8_def)
  show ?thesis using conf run 0 1 q by blast
qed

section \<open>The clamp policy\<close>

lemma quantize_full_range:
  assumes "k_min k = 0" and "k_max k = 255"
  shows "quantize True k v = quantize False k v"
proof -
  have "\<And>r::u8. max 0 (min 255 r) = r"
    by (simp add: max_def min_def word_le_def)
      (use u8_uint_bounds in \<open>simp add: order.antisym word_uint_eq_iff\<close>)
  then show ?thesis using assms by (simp add: quantize_def finalize_quantization_def Let_def)
qed

lemma run_template_cong:
  assumes "\<And>v. quantize b k v = quantize b' k v"
  shows "run_template b k window s = run_template b' k window s"
proof -
  have 1: "row_nobias b k = row_nobias b' k"
    by (intro ext) (simp add: row_nobias_result assms)
  have 2: "row_bias b k = row_bias b' k"
    by (intro ext) (simp add: row_bias_result assms)
  show ?thesis unfolding run_template_def 1 2 by (rule refl)
qed

text \<open>
  Claim C4. \<^verbatim>\<open>configure\<close> selects \<^verbatim>\<open>run<true>\<close>, the path that clamps, exactly when
  \<open>min \<noteq> max\<close> and not (\<open>min = 0\<close> and \<open>max = 255\<close>), and \<^verbatim>\<open>run<false>\<close> otherwise. For
  \<open>min = 0\<close> and \<open>max = 255\<close> the path that is selected writes, on every window and every
  store, what the clamping path would write, and the two scalar rules agree on every value.
\<close>

theorem configure_selects_clamp_path:
  assumes "configure s0 k0 (Some i) bias (Some out) m sh off mn mx = Inr (s1, k)"
  shows "k_func k = Some (mn \<noteq> mx \<and> \<not> (mn = 0 \<and> mx = 255))
     \<and> (if mn = 0 \<and> mx = 255
        then run_template False k window s = run_template True k window s
           \<and> quantize False k v = quantize True k v
        else True)"
  using configure_kernel[OF assms] quantize_full_range[of k]
    run_template_cong[of False k True window s]
  by simp

theorem configure_selects_clamp_path_witness:
  "\<exists>s1 k. configure example_store new_kernel (Some 0) (Some 1) (Some 2) (2 ^ 30) 2 128 0 255
       = Inr (s1, k)
     \<and> k_func k = Some False
     \<and> run_template False k example_window s1 = run_template True k example_window s1
     \<and> quantize False k 1024 = quantize True k 1024"
proof -
  have va: "validate_arguments example_store 0 (Some 1) 2 0 255 = OK"
    using example_validate_arguments[of 0 255] by simp
  obtain s1 k where conf: "configure example_store new_kernel (Some 0) (Some 1) (Some 2)
      (2 ^ 30) 2 128 0 255 = Inr (s1, k)"
    using va by (simp add: configure_result)
  show ?thesis
    using configure_selects_clamp_path[OF conf, of example_window s1 1024] conf by simp
qed

text \<open>
  Claim C3 says that a kernel configured with \<open>min = max\<close> writes that one value to
  every output element. It does not: with \<open>min = max = 5\<close>, multiplier 0, shift 0 and offset
  128 the element \<open>(2, 1)\<close> of the output is 128.
\<close>

theorem degenerate_clamp_counterexample:
  "\<not> isl degenerate_configured \<and> \<not> isl degenerate_run
   \<and> k_min (snd (projr degenerate_configured)) = 5
   \<and> k_max (snd (projr degenerate_configured)) = 5
   \<and> u8_buffer (projr degenerate_run) 2 [2, 1] = 128
   \<and> u8_buffer (projr degenerate_run) 2 [2, 1] \<noteq> 5"
proof -
  have va: "validate_arguments example_store 0 None 2 5 5 = OK"
    using example_validate_arguments[of 5 5] by simp
  obtain s1 k where conf: "configure example_store new_kernel (Some 0) None (Some 2) 0 0 128 5 5
      = Inr (s1, k)"
    using va by (simp add: configure_result)
  note ck = configure_kernel[OF conf]
  have s1: "s1 = snd (validate_and_configure_window example_store 0 2)" using ck by simp
  obtain s' where run: "run k example_window example_info s1 = Inr s'"
    using run_returns[OF conf, of example_window example_info s1] example_valid
      example_window_configured by auto
  have row: "[0, 1] \<in> set (visited_rows s1 2 example_window)"
    using example_visited by (simp add: s1)
  have "u8_buffer s' 2 (ptr_add [0, 1] 2)
      = quantize False k (s32_buffer s1 0 (ptr_add [0, 1] 2) + 0)"
    using run_output[OF conf example_live(1,2,3,5) refl run row example_x] by simp
  then have v: "u8_buffer s' 2 [2, 1] = 128"
    using ck by (simp add: quantize_def finalize_quantization_def rounding_multiply_high_def
          rounding_shift_right_def saturate_u8_def)
  show ?thesis
    using conf run v ck by (simp add: degenerate_configured_def degenerate_run_def)
qed

text \<open>
  Claim C3, amended. When the kernel is configured with \<open>min = max\<close>, \<^verbatim>\<open>configure\<close>
  selects \<^verbatim>\<open>run<false>\<close>, and every visited output element is the scaled, shifted and
  offset value saturated into \<open>[0, 255]\<close>: the bounds play no part.
\<close>

theorem degenerate_clamp_is_unclamped:
  assumes "configure s0 k0 (Some i) bias (Some out) m sh off mn mn = Inr (s1, k)"
    and "i < brk s0" and "out < brk s0" and "i \<noteq> out"
    and "case bias of None \<Rightarrow> True | Some bb \<Rightarrow> bb < brk s0 \<and> bb \<noteq> out"
    and "infos s = infos s1"
    and "run k window info s = Inr s'"
    and "row \<in> set (visited_rows s out window)"
    and "dim_start (window_dim window DimX) \<le> x" and "x < dim_end (window_dim window DimX)"
  shows "k_func k = Some False
     \<and> u8_buffer s' out (ptr_add row x) =
         saturate_u8 (rounding_shift_right
           (rounding_multiply_high
              (s32_buffer s i (ptr_add row x)
                 + (case bias of None \<Rightarrow> 0 | Some bb \<Rightarrow> s32_buffer s bb [x])) m) sh + off)"
  using run_output[OF assms] configure_kernel[OF assms(1)]
  by (simp add: quantize_def finalize_quantization_def Let_def)

theorem degenerate_clamp_is_unclamped_witness:
  "\<exists>s1 k s'. configure example_store new_kernel (Some 0) None (Some 2) 0 0 128 5 5 = Inr (s1, k)
     \<and> run k example_window example_info s1 = Inr s'
     \<and> k_func k = Some False
     \<and> u8_buffer s' 2 [2, 1] = 128"
proof -
  have va: "validate_arguments example_store 0 None 2 5 5 = OK"
    using example_validate_arguments[of 5 5] by simp
  obtain s1 k where conf: "configure example_store new_kernel (Some 0) None (Some 2) 0 0 128 5 5
      = Inr (s1, k)"
    using va by (simp add: configure_result)
  have s1: "s1 = snd (validate_and_configure_window example_store 0 2)"
    using configure_kernel[OF conf] by simp
  obtain s' where run: "run k example_window example_info s1 = Inr s'"
    using run_returns[OF conf, of example_window example_info s1] example_valid
      example_window_configured by auto
  have row: "[0, 1] \<in> set (visited_rows s1 2 example_window)"
    using example_visited by (simp add: s1)
  have "k_func k = Some False \<and> u8_buffer s' 2 [2, 1] = 128"
    using degenerate_clamp_is_unclamped[OF conf example_live(1,2,3,5) refl run row example_x]
    by (simp add: rounding_multiply_high_def rounding_shift_right_def saturate_u8_def)
  then show ?thesis using conf run by blast
qed

end
